theory Spec2Isabelle
  imports Complex_Main "HOL-Library.Word"
begin

section \<open>Python values used by \<^verbatim>\<open>simple_server.py\<close>\<close>

text \<open>
  The handler of \<^verbatim>\<open>simple_server.py\<close> works on three kinds of text.  Header names and
  values, the request path and the client address are Python \<^verbatim>\<open>str\<close> objects that the
  HTTP layer decoded as ISO-8859-1: every character is one of the 256 values of
  \<^typ>\<open>char\<close>, so they are \<^typ>\<open>string\<close>.  The request body is a byte string.  Everything
  the handler prints or sends is a \<^verbatim>\<open>str\<close> over all of Unicode: a list of code points.
\<close>

type_synonym byte = "8 word"
type_synonym bytes = "byte list"
type_synonym pystr = "nat list"

datatype py_error = ValueError | UnicodeDecodeError | UnicodeEncodeError | OverflowError

definition py_ord :: "char \<Rightarrow> nat" where
  "py_ord c = of_char c"

definition lit :: "string \<Rightarrow> pystr" where
  "lit s = map py_ord s"

subsection \<open>\<^verbatim>\<open>str.lower\<close>, \<^verbatim>\<open>str.strip\<close>, \<^verbatim>\<open>str.split\<close>, substring test\<close>

text \<open>
  \<^verbatim>\<open>str.lower\<close> maps code point by code point.  The table is written out for ASCII and
  Latin-1 and for the two other code points whose lower case contains an ASCII
  character (U+0130, which becomes \<^verbatim>\<open>i\<close> followed by U+0307, and U+212A, the Kelvin sign,
  which becomes \<^verbatim>\<open>k\<close>).  Every other code point above U+00FF is left as it is: its lower
  case is some text without ASCII characters, and the program only ever compares
  lower-cased text with ASCII words.
\<close>

definition lower_cp :: "nat \<Rightarrow> pystr" where
  "lower_cp c =
     (if (65 \<le> c \<and> c \<le> 90) \<or> (192 \<le> c \<and> c \<le> 222 \<and> c \<noteq> 215) then [c + 32]
      else if c = 304 then [105, 775]
      else if c = 8490 then [107]
      else [c])"

definition py_lower :: "pystr \<Rightarrow> pystr" where
  "py_lower s = concat (map lower_cp s)"

text \<open>The code points for which \<^verbatim>\<open>str.isspace\<close> holds: what \<^verbatim>\<open>str.strip()\<close> removes.\<close>

definition py_isspace :: "nat \<Rightarrow> bool" where
  "py_isspace c =
     ((9 \<le> c \<and> c \<le> 13) \<or> (28 \<le> c \<and> c \<le> 32) \<or> c = 133 \<or> c = 160 \<or> c = 5760
      \<or> (8192 \<le> c \<and> c \<le> 8202) \<or> c = 8232 \<or> c = 8233 \<or> c = 8239 \<or> c = 8287
      \<or> c = 12288)"

definition py_strip :: "pystr \<Rightarrow> pystr" where
  "py_strip s = rev (dropWhile py_isspace (rev (dropWhile py_isspace s)))"

text \<open>\<^verbatim>\<open>s.split('\n')\<close>: cut at every line feed; the result is never empty.\<close>

fun split_lf :: "pystr \<Rightarrow> pystr list" where
  "split_lf [] = [[]]"
| "split_lf (c # cs) =
     (if c = 10 then [] # split_lf cs
      else (case split_lf cs of l # ls \<Rightarrow> (c # l) # ls | [] \<Rightarrow> [[c]]))"

text \<open>\<^verbatim>\<open>kw in s\<close> for two strings: \<^verbatim>\<open>kw\<close> occurs in \<^verbatim>\<open>s\<close> as a contiguous run.\<close>

fun starts_with :: "pystr \<Rightarrow> pystr \<Rightarrow> bool" where
  "starts_with [] s = True"
| "starts_with (k # ks) [] = False"
| "starts_with (k # ks) (c # cs) = (k = c \<and> starts_with ks cs)"

fun py_in :: "pystr \<Rightarrow> pystr \<Rightarrow> bool" where
  "py_in kw [] = (kw = [])"
| "py_in kw (c # cs) = (starts_with kw (c # cs) \<or> py_in kw cs)"

subsection \<open>\<^verbatim>\<open>str(int)\<close> and zero padding\<close>

fun dec :: "nat \<Rightarrow> pystr" where
  "dec n = (if n < 10 then [48 + n] else dec (n div 10) @ [48 + n mod 10])"

declare dec.simps [simp del]

definition str_int :: "int \<Rightarrow> pystr" where
  "str_int i = (if i < 0 then 45 # dec (nat (- i)) else dec (nat i))"

function zpad :: "nat \<Rightarrow> pystr \<Rightarrow> pystr" where
  "zpad w s = (if length s < w then zpad w (48 # s) else s)"
  by pat_completeness auto
termination
  by (relation "measure (\<lambda>(w, s). w - length s)") auto

declare zpad.simps [simp del]

subsection \<open>\<^verbatim>\<open>int(str)\<close>\<close>

text \<open>
  \<^verbatim>\<open>int\<close> and \<^verbatim>\<open>float\<close> of a string first strip white space from both ends.  On a
  Latin-1 string that is the ASCII white space (9 to 13 and 32) and the two code points
  U+0085 and U+00A0; the separators 28 to 31 are not stripped here, unlike in
  \<^verbatim>\<open>str.strip\<close>.
\<close>

definition num_space :: "char \<Rightarrow> bool" where
  "num_space c = (let n = py_ord c in (9 \<le> n \<and> n \<le> 13) \<or> n = 32 \<or> n = 133 \<or> n = 160)"

definition num_strip :: "string \<Rightarrow> string" where
  "num_strip s = rev (dropWhile num_space (rev (dropWhile num_space s)))"

definition is_digit :: "char \<Rightarrow> bool" where
  "is_digit c = (48 \<le> py_ord c \<and> py_ord c \<le> 57)"

text \<open>
  A single underscore may stand between two digits and nowhere else; the underscores
  are removed before the number is read.  The first argument is the character before.
\<close>

fun drop_underscores :: "char \<Rightarrow> string \<Rightarrow> string option" where
  "drop_underscores prev [] = (if prev = CHR ''_'' then None else Some [])"
| "drop_underscores prev (c # cs) =
     (if c = CHR ''_'' then (if is_digit prev then drop_underscores c cs else None)
      else if prev = CHR ''_'' \<and> \<not> is_digit c then None
      else map_option (Cons c) (drop_underscores c cs))"

definition digits_val :: "string \<Rightarrow> nat" where
  "digits_val ds = foldl (\<lambda>a c. 10 * a + (py_ord c - 48)) 0 ds"

text \<open>An optional sign in front: whether it is a minus, and the rest.\<close>

definition split_sign :: "string \<Rightarrow> bool \<times> string" where
  "split_sign s =
     (case s of
        [] \<Rightarrow> (False, [])
      | c # r \<Rightarrow> if c = CHR ''-'' then (True, r) else if c = CHR ''+'' then (False, r)
                 else (False, s))"

text \<open>
  The default limit of CPython 3.11 and later on the digits of a decimal string that
  \<^verbatim>\<open>int\<close> converts.
\<close>

definition int_max_str_digits :: nat where
  "int_max_str_digits = 4300"

definition py_int :: "string \<Rightarrow> py_error + int" where
  "py_int s =
     (case drop_underscores (CHR 0x00) (num_strip s) of
        None \<Rightarrow> Inl ValueError
      | Some t \<Rightarrow>
          (case split_sign t of
             (neg, ds) \<Rightarrow>
               if ds = [] \<or> \<not> list_all is_digit ds then Inl ValueError
               else if int_max_str_digits < length ds then Inl ValueError
               else Inr (if neg then - int (digits_val ds) else int (digits_val ds))))"

subsection \<open>\<^verbatim>\<open>bytes.decode('utf-8')\<close> and \<^verbatim>\<open>str.encode('utf-8')\<close>\<close>

definition cont :: "byte \<Rightarrow> bool" where
  "cont b = (0x80 \<le> b \<and> b \<le> 0xBF)"

definition cbits :: "byte \<Rightarrow> nat" where
  "cbits b = unat b - 128"

definition push_cp :: "nat \<Rightarrow> py_error + pystr \<Rightarrow> py_error + pystr" where
  "push_cp c r = (case r of Inl e \<Rightarrow> Inl e | Inr s \<Rightarrow> Inr (c # s))"

text \<open>
  The strict decoder: shortest forms only, no surrogates, nothing above U+10FFFF.  The
  second byte of a three- or four-byte form is restricted according to the first.
\<close>

fun utf8_decode :: "bytes \<Rightarrow> py_error + pystr" where
  "utf8_decode [] = Inr []"
| "utf8_decode (b0 # bs) =
     (if b0 < 0x80 then push_cp (unat b0) (utf8_decode bs)
      else if 0xC2 \<le> b0 \<and> b0 \<le> 0xDF then
        (case bs of
           b1 # r \<Rightarrow>
             if cont b1 then push_cp ((unat b0 - 192) * 64 + cbits b1) (utf8_decode r)
             else Inl UnicodeDecodeError
         | _ \<Rightarrow> Inl UnicodeDecodeError)
      else if 0xE0 \<le> b0 \<and> b0 \<le> 0xEF then
        (case bs of
           b1 # b2 # r \<Rightarrow>
             if cont b1 \<and> cont b2 \<and> (b0 = 0xE0 \<longrightarrow> 0xA0 \<le> b1) \<and> (b0 = 0xED \<longrightarrow> b1 \<le> 0x9F)
             then push_cp ((unat b0 - 224) * 4096 + cbits b1 * 64 + cbits b2) (utf8_decode r)
             else Inl UnicodeDecodeError
         | _ \<Rightarrow> Inl UnicodeDecodeError)
      else if 0xF0 \<le> b0 \<and> b0 \<le> 0xF4 then
        (case bs of
           b1 # b2 # b3 # r \<Rightarrow>
             if cont b1 \<and> cont b2 \<and> cont b3 \<and> (b0 = 0xF0 \<longrightarrow> 0x90 \<le> b1)
                \<and> (b0 = 0xF4 \<longrightarrow> b1 \<le> 0x8F)
             then push_cp ((unat b0 - 240) * 262144 + cbits b1 * 4096 + cbits b2 * 64 + cbits b3)
                    (utf8_decode r)
             else Inl UnicodeDecodeError
         | _ \<Rightarrow> Inl UnicodeDecodeError)
      else Inl UnicodeDecodeError)"

text \<open>One code point as bytes; surrogates and values above U+10FFFF cannot be encoded.\<close>

definition encode_cp :: "nat \<Rightarrow> bytes option" where
  "encode_cp c =
     (if c < 0x80 then Some [of_nat c]
      else if c < 0x800 then Some [of_nat (192 + c div 64), of_nat (128 + c mod 64)]
      else if 0xD800 \<le> c \<and> c \<le> 0xDFFF then None
      else if c < 0x10000 then
        Some [of_nat (224 + c div 4096), of_nat (128 + c div 64 mod 64), of_nat (128 + c mod 64)]
      else if c < 0x110000 then
        Some [of_nat (240 + c div 262144), of_nat (128 + c div 4096 mod 64),
              of_nat (128 + c div 64 mod 64), of_nat (128 + c mod 64)]
      else None)"

fun utf8_encode :: "pystr \<Rightarrow> py_error + bytes" where
  "utf8_encode [] = Inr []"
| "utf8_encode (c # cs) =
     (case encode_cp c of
        None \<Rightarrow> Inl UnicodeEncodeError
      | Some bs \<Rightarrow> (case utf8_encode cs of Inl e \<Rightarrow> Inl e | Inr r \<Rightarrow> Inr (bs @ r)))"

subsection \<open>\<^verbatim>\<open>BufferedReader.read\<close>\<close>

text \<open>
  \<^verbatim>\<open>self.rfile\<close> is a buffered reader over the connection.  The stream is the bytes
  that arrive after the request head, up to the end of the connection's input.
  \<^verbatim>\<open>read(n)\<close> returns the next \<^verbatim>\<open>n\<close> bytes, or all that are left when fewer arrive
  before the end of input; \<^verbatim>\<open>read(-1)\<close> returns all of them; a length below \<^verbatim>\<open>-1\<close>
  is a \<^verbatim>\<open>ValueError\<close>, and a length that no byte string can have (on a 64-bit build,
  above \<^verbatim>\<open>2^63 - 34\<close>) is an \<^verbatim>\<open>OverflowError\<close>.  Running out of memory for a large
  buffer, and a peer that neither sends nor closes, are outside this model.
\<close>

definition rfile_read :: "bytes \<Rightarrow> int \<Rightarrow> py_error + bytes" where
  "rfile_read stream n =
     (if n < - 1 then Inl ValueError
      else if n = - 1 then Inr stream
      else if 2 ^ 63 - 34 < n then Inl OverflowError
      else Inr (take (nat n) stream))"

subsection \<open>\<^verbatim>\<open>float\<close>: IEEE 754 double precision\<close>

text \<open>
  A finite double is a sign, a mantissa \<open>m\<close> and an exponent \<open>e\<close>, with value
  \<open>m * 2 ^ e\<close>; the sign is kept apart because \<^verbatim>\<open>-0.0\<close> prints its sign.
\<close>

datatype pyfloat = Finite bool nat int | Infinity bool | NaN

fun bitlen :: "nat \<Rightarrow> nat" where
  "bitlen n = (if n = 0 then 0 else Suc (bitlen (n div 2)))"

declare bitlen.simps [simp del]

text \<open>\<open>scaled_le q L p\<close>: \<open>q * 2 ^ L \<le> p\<close>, for an exponent \<open>L\<close> of either sign.\<close>

definition scaled_le :: "nat \<Rightarrow> int \<Rightarrow> nat \<Rightarrow> bool" where
  "scaled_le q L p = (if 0 \<le> L then q * 2 ^ nat L \<le> p else q \<le> p * 2 ^ nat (- L))"

text \<open>The binary exponent of the fraction \<open>p / q\<close>, for positive \<open>p\<close> and \<open>q\<close>.\<close>

definition ilog2 :: "nat \<Rightarrow> nat \<Rightarrow> int" where
  "ilog2 p q =
     (let L = int (bitlen p) - int (bitlen q) in if scaled_le q L p then L else L - 1)"

text \<open>The integer nearest to \<open>n / d\<close>, a tie going to the even one.\<close>

definition round_half_even :: "nat \<Rightarrow> nat \<Rightarrow> nat" where
  "round_half_even n d =
     (let q = n div d; r = n mod d in
      if 2 * r < d then q else if d < 2 * r then q + 1 else if even q then q else q + 1)"

text \<open>
  The double nearest to \<open>p / q\<close> (ties to even): 53 bits of mantissa, no exponent
  below \<open>-1074\<close> (the subnormal numbers), and \<open>None\<close> when the result is beyond the
  largest double.
\<close>

definition round_double :: "nat \<Rightarrow> nat \<Rightarrow> (nat \<times> int) option" where
  "round_double p q =
     (if p = 0 then Some (0, 0)
      else
        let ex = max (ilog2 p q - 52) (- 1074);
            m = round_half_even (p * 2 ^ nat (- ex)) (q * 2 ^ nat ex)
        in if 971 < ex \<or> (ex = 971 \<and> 2 ^ 53 \<le> m) then None else Some (m, ex))"

definition mk_float :: "bool \<Rightarrow> nat \<Rightarrow> nat \<Rightarrow> pyfloat" where
  "mk_float s p q = (case round_double p q of None \<Rightarrow> Infinity s | Some (m, e) \<Rightarrow> Finite s m e)"

text \<open>
  \<^verbatim>\<open>float(str)\<close>: white space stripped, underscores between digits removed, an optional
  sign, then \<^verbatim>\<open>inf\<close>, \<^verbatim>\<open>infinity\<close> or \<^verbatim>\<open>nan\<close> in any case, or a decimal number: digits
  with an optional point (at least one digit) and an optional exponent.  The whole
  string must be used up.  The value is the double nearest to the decimal number.
\<close>

definition parse_exponent :: "string \<Rightarrow> int option" where
  "parse_exponent r =
     (case r of
        [] \<Rightarrow> Some 0
      | c # r' \<Rightarrow>
          if c = CHR ''e'' \<or> c = CHR ''E'' then
            (case split_sign r' of
               (neg, ds) \<Rightarrow>
                 if ds = [] \<or> \<not> list_all is_digit ds then None
                 else Some (if neg then - int (digits_val ds) else int (digits_val ds)))
          else None)"

definition parse_decimal :: "string \<Rightarrow> (nat \<times> int) option" where
  "parse_decimal r =
     (let ip = takeWhile is_digit r;
          r1 = dropWhile is_digit r;
          fp = (case r1 of [] \<Rightarrow> [] | c # r' \<Rightarrow> if c = CHR ''.'' then takeWhile is_digit r' else []);
          r2 = (case r1 of [] \<Rightarrow> [] | c # r' \<Rightarrow> if c = CHR ''.'' then dropWhile is_digit r' else r1)
      in if ip = [] \<and> fp = [] then None
         else (case parse_exponent r2 of
                 None \<Rightarrow> None
               | Some ex \<Rightarrow> Some (digits_val (ip @ fp), ex - int (length fp))))"

definition of_decimal :: "bool \<Rightarrow> nat \<Rightarrow> int \<Rightarrow> pyfloat" where
  "of_decimal s mant sc =
     (if 0 \<le> sc then mk_float s (mant * 10 ^ nat sc) 1 else mk_float s mant (10 ^ nat (- sc)))"

definition py_float :: "string \<Rightarrow> py_error + pyfloat" where
  "py_float s =
     (case drop_underscores (CHR 0x00) (num_strip s) of
        None \<Rightarrow> Inl ValueError
      | Some t \<Rightarrow>
          (case split_sign t of
             (neg, r) \<Rightarrow>
               if py_lower (lit r) = lit ''inf'' \<or> py_lower (lit r) = lit ''infinity''
               then Inr (Infinity neg)
               else if py_lower (lit r) = lit ''nan'' then Inr NaN
               else (case parse_decimal r of
                       None \<Rightarrow> Inl ValueError
                     | Some (mant, sc) \<Rightarrow> Inr (of_decimal neg mant sc))))"

text \<open>
  \<^verbatim>\<open>x / d\<close> for a float \<open>x\<close> and a positive integer \<open>d\<close> that a double holds exactly
  (the source divides by the literal 1000): the double nearest to the quotient.
\<close>

definition float_truediv :: "pyfloat \<Rightarrow> nat \<Rightarrow> pyfloat" where
  "float_truediv x d =
     (case x of
        Finite s m e \<Rightarrow>
          if 0 \<le> e then mk_float s (m * 2 ^ nat e) d else mk_float s m (d * 2 ^ nat (- e))
      | Infinity s \<Rightarrow> Infinity s
      | NaN \<Rightarrow> NaN)"

text \<open>
  The format \<^verbatim>\<open>.3f\<close>: the exact value rounded to thousandths (ties to even), printed
  with all its integer digits, a point and three digits; \<^verbatim>\<open>inf\<close> and \<^verbatim>\<open>nan\<close> print
  as words.
\<close>

definition fixed3 :: "bool \<Rightarrow> nat \<Rightarrow> pystr" where
  "fixed3 s r = (if s then [45] else []) @ dec (r div 1000) @ [46] @ zpad 3 (dec (r mod 1000))"

definition format_3f :: "pyfloat \<Rightarrow> pystr" where
  "format_3f x =
     (case x of
        Finite s m e \<Rightarrow>
          fixed3 s (if 0 \<le> e then m * 1000 * 2 ^ nat e
                    else round_half_even (m * 1000) (2 ^ nat (- e)))
      | Infinity s \<Rightarrow> (if s then lit ''-inf'' else lit ''inf'')
      | NaN \<Rightarrow> lit ''nan'')"

text \<open>
  \<^verbatim>\<open>uptime_seconds\<close> is a float or the integer literal \<^verbatim>\<open>0\<close>; an integer is
  formatted through its float.  (The conversion of an integer beyond the doubles
  raises in Python; the handler only ever formats the integer 0.)
\<close>

datatype pynum = PyInt int | PyFloat pyfloat

definition format_num_3f :: "pynum \<Rightarrow> pystr" where
  "format_num_3f v =
     (case v of
        PyInt i \<Rightarrow> format_3f (mk_float (i < 0) (nat \<bar>i\<bar>) 1)
      | PyFloat x \<Rightarrow> format_3f x)"

subsection \<open>\<^verbatim>\<open>datetime.strftime\<close>\<close>

text \<open>
  The reading of the clock, \<^verbatim>\<open>datetime.now()\<close>, is an input of each request.  The two
  formats of the source print the fields in decimal, the year as it is (four digits
  for the years 1000 to 9999), the others padded with zeros to two digits and the
  microseconds to six.
\<close>

record datetime =
  year :: nat
  month :: nat
  day :: nat
  hour :: nat
  minute :: nat
  second :: nat
  microsecond :: nat

text \<open>\<^verbatim>\<open>strftime("%Y-%m-%d %H:%M:%S")\<close>\<close>

definition strftime_seconds :: "datetime \<Rightarrow> pystr" where
  "strftime_seconds d =
     dec (year d) @ [45] @ zpad 2 (dec (month d)) @ [45] @ zpad 2 (dec (day d)) @ [32]
     @ zpad 2 (dec (hour d)) @ [58] @ zpad 2 (dec (minute d)) @ [58] @ zpad 2 (dec (second d))"

text \<open>\<^verbatim>\<open>strftime("%Y-%m-%d %H:%M:%S.%f")\<close>\<close>

definition strftime_micro :: "datetime \<Rightarrow> pystr" where
  "strftime_micro d = strftime_seconds d @ [46] @ zpad 6 (dec (microsecond d))"

section \<open>The request handler\<close>

subsection \<open>Requests, responses and the server's state\<close>

text \<open>
  \<^verbatim>\<open>ESP32RequestHandler\<close> is instantiated once per request by the HTTP server, which has
  parsed the request line and the headers.  A request is what the handler reads from
  \<^verbatim>\<open>self\<close>: the method, the path, the headers in the order they arrived (duplicates
  kept), the host of \<^verbatim>\<open>client_address\<close>, the input stream, and the clock.  Only
  \<^verbatim>\<open>do_GET\<close> and \<^verbatim>\<open>do_POST\<close> exist, so no other method reaches this class's code.
\<close>

datatype http_method = GET | POST

record request =
  command :: http_method
  path :: string
  headers :: "(string \<times> string) list"
  client_address :: string
  rfile :: bytes
  now :: datetime

text \<open>The class variable \<^verbatim>\<open>message_count\<close> is the only state that outlives a request.\<close>

record server_state =
  message_count :: int

definition initial_state :: server_state where
  "initial_state = \<lparr>message_count = 0\<rparr>"

text \<open>
  What the handler sends: the status of \<^verbatim>\<open>send_response\<close>, the headers it adds with
  \<^verbatim>\<open>send_header\<close> and the bytes it writes to \<^verbatim>\<open>wfile\<close>.
\<close>

record response =
  status :: nat
  sent_headers :: "(string \<times> string) list"
  body :: bytes

text \<open>
  The outcome of a handler: an exception that left it (the server then closes the
  connection without a response), or the lines it printed, one entry per \<^verbatim>\<open>print\<close>,
  and its response.  Every expression of \<^verbatim>\<open>do_POST\<close> that can raise is evaluated before
  the first \<^verbatim>\<open>print\<close>, so an exception leaves nothing printed.  Standard output is taken
  to accept every code point, and the client to stay connected while the response is
  written.
\<close>

type_synonym outcome = "py_error + (pystr list \<times> response)"

subsection \<open>\<^verbatim>\<open>self.headers.get\<close>\<close>

text \<open>
  \<^verbatim>\<open>Message.get(name, failobj)\<close>: the value of the first header whose name equals
  \<^verbatim>\<open>name\<close> when both are lower-cased.  \<open>None\<close> stands for \<^verbatim>\<open>failobj\<close>.
\<close>

fun hget :: "(string \<times> string) list \<Rightarrow> string \<Rightarrow> string option" where
  "hget [] name = None"
| "hget ((k, v) # hs) name =
     (if py_lower (lit k) = py_lower (lit name) then Some v else hget hs name)"

subsection \<open>Reading the body (lines 19 to 22)\<close>

text \<open>\<^verbatim>\<open>int(self.headers.get('Content-Length', 0))\<close>\<close>

definition content_length :: "request \<Rightarrow> py_error + int" where
  "content_length rq =
     (case hget (headers rq) ''Content-Length'' of None \<Rightarrow> Inr 0 | Some v \<Rightarrow> py_int v)"

text \<open>\<^verbatim>\<open>self.rfile.read(content_length)\<close>\<close>

definition read_body :: "request \<Rightarrow> py_error + bytes" where
  "read_body rq =
     (case content_length rq of Inl e \<Rightarrow> Inl e | Inr n \<Rightarrow> rfile_read (rfile rq) n)"

text \<open>\<^verbatim>\<open>post_data = self.rfile.read(content_length).decode('utf-8')\<close>\<close>

definition read_post_data :: "request \<Rightarrow> py_error + pystr" where
  "read_post_data rq =
     (case read_body rq of Inl e \<Rightarrow> Inl e | Inr raw \<Rightarrow> utf8_decode raw)"

subsection \<open>The custom headers (lines 25 to 28)\<close>

definition esp32_counter :: "request \<Rightarrow> string" where
  "esp32_counter rq =
     (case hget (headers rq) ''X-ESP32-Message-Counter'' of None \<Rightarrow> ''N/A'' | Some v \<Rightarrow> v)"

definition esp32_uptime :: "request \<Rightarrow> string" where
  "esp32_uptime rq =
     (case hget (headers rq) ''X-ESP32-Uptime-MS'' of None \<Rightarrow> ''N/A'' | Some v \<Rightarrow> v)"

text \<open>\<^verbatim>\<open>float(esp32_uptime) / 1000 if esp32_uptime != 'N/A' else 0\<close>\<close>

definition uptime_seconds :: "string \<Rightarrow> py_error + pynum" where
  "uptime_seconds up =
     (if up \<noteq> ''N/A'' then
        (case py_float up of Inl e \<Rightarrow> Inl e | Inr x \<Rightarrow> Inr (PyFloat (float_truediv x 1000)))
      else Inr (PyInt 0))"

subsection \<open>The dictionary of custom headers (lines 47 to 50)\<close>

text \<open>
  A dictionary keeps its keys in the order of their first insertion; storing under a
  key that is present replaces the value where the key stands.
\<close>

fun dict_set :: "(string \<times> string) list \<Rightarrow> string \<Rightarrow> string \<Rightarrow> (string \<times> string) list" where
  "dict_set [] k v = [(k, v)]"
| "dict_set ((k', v') # d) k v = (if k' = k then (k', v) # d else (k', v') # dict_set d k v)"

text \<open>\<^verbatim>\<open>{k: v for k, v in self.headers.items() if k.startswith('X-ESP32-')}\<close>\<close>

definition esp32_headers :: "request \<Rightarrow> (string \<times> string) list" where
  "esp32_headers rq =
     foldl (\<lambda>d (k, v). if starts_with (lit ''X-ESP32-'') (lit k) then dict_set d k v else d)
       [] (headers rq)"

text \<open>
  \<^verbatim>\<open>repr\<close> of a Latin-1 string: double quotes when the string has a single quote and no
  double quote, single quotes otherwise; the quote and the backslash are escaped, tab,
  line feed and carriage return are written \<^verbatim>\<open>\t\<close>, \<^verbatim>\<open>\n\<close>, \<^verbatim>\<open>\r\<close>, and every other
  character that is not printable (below 32, 127 to 160, 173) as \<^verbatim>\<open>\x\<close> and two
  hexadecimal digits.
\<close>

definition hex_digit :: "nat \<Rightarrow> nat" where
  "hex_digit d = (if d < 10 then 48 + d else 87 + d)"

definition repr_char :: "nat \<Rightarrow> nat \<Rightarrow> pystr" where
  "repr_char q c =
     (if c = q \<or> c = 92 then [92, c]
      else if c = 9 then [92, 116]
      else if c = 10 then [92, 110]
      else if c = 13 then [92, 114]
      else if c < 32 \<or> (127 \<le> c \<and> c \<le> 160) \<or> c = 173
        then [92, 120, hex_digit (c div 16), hex_digit (c mod 16)]
      else [c])"

definition py_repr :: "string \<Rightarrow> pystr" where
  "py_repr s =
     (let q = (if 39 \<in> set (lit s) \<and> 34 \<notin> set (lit s) then 34 else 39)
      in [q] @ concat (map (repr_char q) (lit s)) @ [q])"

fun join :: "pystr \<Rightarrow> pystr list \<Rightarrow> pystr" where
  "join sep [] = []"
| "join sep [x] = x"
| "join sep (x # y # ys) = x @ sep @ join sep (y # ys)"

definition repr_dict :: "(string \<times> string) list \<Rightarrow> pystr" where
  "repr_dict d =
     [123] @ join [44, 32] (map (\<lambda>(k, v). py_repr k @ [58, 32] @ py_repr v) d) @ [125]"

subsection \<open>The scan for changing data (lines 59 to 68)\<close>

definition keyword_list :: "pystr list" where
  "keyword_list =
     [lit ''counter'', lit ''uptime'', lit ''random'', lit ''hash'', lit ''heap'',
      lit ''message number'']"

text \<open>
  The loop over the lines: a line in whose lower case some keyword occurs is appended,
  stripped, to \<^verbatim>\<open>changing_data\<close>.
\<close>

definition changing_data :: "pystr \<Rightarrow> pystr list" where
  "changing_data post_data =
     foldl (\<lambda>acc line.
              if list_ex (\<lambda>keyword. py_in keyword (py_lower line)) keyword_list
              then acc @ [py_strip line] else acc)
       [] (split_lf post_data)"

text \<open>What lines 65 to 68 print: a heading and the first five entries, if there are any.\<close>

definition changing_lines :: "pystr \<Rightarrow> pystr list" where
  "changing_lines post_data =
     (if changing_data post_data \<noteq> [] then
        ([10, 128269] @ lit '' CHANGING DATA DETECTED:'')
        # map (\<lambda>data. lit ''   '' @ [128200] @ lit '' '' @ data) (take 5 (changing_data post_data))
      else [])"

subsection \<open>What \<^verbatim>\<open>do_POST\<close> prints (lines 33 to 70)\<close>

text \<open>Lines 33 to 44: ten calls of \<^verbatim>\<open>print\<close>.\<close>

definition tracking_lines :: "int \<Rightarrow> string \<Rightarrow> pynum \<Rightarrow> pystr \<Rightarrow> request \<Rightarrow> pystr list" where
  "tracking_lines count counter uptime timestamp rq =
     [[10] @ replicate 80 61,
      [127881] @ lit '' ESP32 MESSAGE #'' @ str_int count @ lit '' RECEIVED - '' @ timestamp,
      replicate 80 61,
      [128202] @ lit '' Message Tracking:'',
      lit ''   '' @ [128290] @ lit '' ESP32 Message Counter: '' @ lit counter,
      lit ''   '' @ [128229] @ lit '' Server Received Count: '' @ str_int count,
      lit ''   '' @ [9201, 65039] @ lit ''  ESP32 Uptime: '' @ format_num_3f uptime @ lit '' seconds'',
      lit ''   '' @ [127760] @ lit '' From IP: '' @ lit (client_address rq),
      lit ''   '' @ [128205] @ lit '' Endpoint: '' @ lit (path rq),
      lit ''   '' @ [128203] @ lit '' User-Agent: ''
        @ lit (case hget (headers rq) ''User-Agent'' of None \<Rightarrow> ''Unknown'' | Some v \<Rightarrow> v)]"

text \<open>Lines 47 to 50: the custom headers, if there are any.\<close>

definition custom_header_lines :: "request \<Rightarrow> pystr list" where
  "custom_header_lines rq =
     (if esp32_headers rq \<noteq> [] then
        [lit ''   '' @ [127991, 65039] @ lit ''  ESP32 Custom Headers: '' @ repr_dict (esp32_headers rq)]
      else [])"

text \<open>Lines 52 to 56: the payload and \<^verbatim>\<open>len(post_data)\<close>.\<close>

definition content_lines :: "pystr \<Rightarrow> pystr list" where
  "content_lines post_data =
     [[10, 128232] @ lit '' MESSAGE CONTENT:'',
      replicate 80 9472,
      post_data,
      replicate 80 9472,
      [128207] @ lit '' Message Length: '' @ str_int (int (length post_data)) @ lit '' bytes'']"

definition post_log :: "int \<Rightarrow> string \<Rightarrow> pynum \<Rightarrow> pystr \<Rightarrow> request \<Rightarrow> pystr \<Rightarrow> pystr list" where
  "post_log count counter uptime timestamp rq post_data =
     tracking_lines count counter uptime timestamp rq @ custom_header_lines rq
     @ content_lines post_data @ changing_lines post_data @ [replicate 80 61 @ [10]]"

subsection \<open>\<^verbatim>\<open>do_POST\<close>\<close>

text \<open>Lines 76 to 79: the text of the acknowledgment.\<close>

definition response_message :: "string \<Rightarrow> int \<Rightarrow> pystr \<Rightarrow> pynum \<Rightarrow> pystr" where
  "response_message counter count timestamp uptime =
     [9989] @ lit '' Message #'' @ lit counter @ lit '' received successfully by your computer!''
     @ [10, 128202] @ lit '' Server has now received '' @ str_int count @ lit '' total messages.''
     @ [10, 9200] @ lit '' Received at: '' @ timestamp
     @ [10, 127919] @ lit '' ESP32 uptime: '' @ format_num_3f uptime @ lit '' seconds''"

text \<open>
  \<^verbatim>\<open>strftime("%Y-%m-%d %H:%M:%S.%f")[:-3]\<close>: the last three characters are cut off.
\<close>

definition post_timestamp :: "request \<Rightarrow> pystr" where
  "post_timestamp rq = take (length (strftime_micro (now rq)) - 3) (strftime_micro (now rq))"

text \<open>
  The handler after the increment of line 16; \<open>count\<close> is the class variable as the
  rest of the handler reads it.
\<close>

definition post_outcome :: "int \<Rightarrow> request \<Rightarrow> outcome" where
  "post_outcome count rq =
     (case read_post_data rq of
        Inl e \<Rightarrow> Inl e
      | Inr post_data \<Rightarrow>
          (case uptime_seconds (esp32_uptime rq) of
             Inl e \<Rightarrow> Inl e
           | Inr uptime \<Rightarrow>
               (case utf8_encode
                       (response_message (esp32_counter rq) count (post_timestamp rq) uptime) of
                  Inl e \<Rightarrow> Inl e
                | Inr b \<Rightarrow>
                    Inr (post_log count (esp32_counter rq) uptime (post_timestamp rq) rq post_data,
                         \<lparr>status = 200, sent_headers = [(''Content-type'', ''text/plain'')],
                          body = b\<rparr>))))"

definition do_POST :: "server_state \<Rightarrow> request \<Rightarrow> server_state \<times> outcome" where
  "do_POST st rq =
     (let st' = st\<lparr>message_count := message_count st + 1\<rparr>
      in (st', post_outcome (message_count st') rq))"

subsection \<open>\<^verbatim>\<open>do_GET\<close>\<close>

definition html_response :: "pystr \<Rightarrow> pystr" where
  "html_response timestamp =
     [10] @ lit ''        <html>'' @ [10] @ lit ''        <body>'' @ [10]
     @ lit ''            <h1>'' @ [127881] @ lit '' ESP32 HTTP Server is Running!</h1>'' @ [10]
     @ lit ''            <p>'' @ [9989] @ lit '' Server is ready to receive ESP32 messages</p>''
     @ [10] @ lit ''            <p>'' @ [9200] @ lit '' Current time: '' @ timestamp @ lit ''</p>''
     @ [10] @ lit ''            <p>'' @ [128161]
     @ lit '' Check the console for POST messages from your ESP32</p>'' @ [10]
     @ lit ''        </body>'' @ [10] @ lit ''        </html>'' @ [10] @ lit ''        ''"

definition get_log :: "request \<Rightarrow> pystr list" where
  "get_log rq =
     [[10, 128225] @ lit '' GET request from '' @ lit (client_address rq) @ lit '' to ''
      @ lit (path rq) @ lit '' at '' @ strftime_seconds (now rq)]"

definition do_GET :: "server_state \<Rightarrow> request \<Rightarrow> server_state \<times> outcome" where
  "do_GET st rq =
     (st,
      case utf8_encode (html_response (strftime_seconds (now rq))) of
        Inl e \<Rightarrow> Inl e
      | Inr b \<Rightarrow>
          Inr (get_log rq,
               \<lparr>status = 200, sent_headers = [(''Content-type'', ''text/html'')], body = b\<rparr>))"

subsection \<open>The server loop\<close>

text \<open>
  \<^verbatim>\<open>HTTPServer.serve_forever\<close> handles one request after the other, in one thread; an
  exception that leaves a handler is caught by the server, which goes on with the next
  request.
\<close>

definition handle_request :: "server_state \<Rightarrow> request \<Rightarrow> server_state \<times> outcome" where
  "handle_request st rq = (case command rq of POST \<Rightarrow> do_POST st rq | GET \<Rightarrow> do_GET st rq)"

fun serve_forever :: "server_state \<Rightarrow> request list \<Rightarrow> server_state \<times> outcome list" where
  "serve_forever st [] = (st, [])"
| "serve_forever st (rq # rqs) =
     (case handle_request st rq of
        (st', out) \<Rightarrow> (case serve_forever st' rqs of (st'', outs) \<Rightarrow> (st'', out # outs)))"

section \<open>Notions used to state the properties\<close>

text \<open>The code points that UTF-8 can encode: all but the surrogates, up to U+10FFFF.\<close>

definition encodable :: "nat \<Rightarrow> bool" where
  "encodable c = (c < 0xD800 \<or> (0xDFFF < c \<and> c < 0x110000))"

text \<open>Concrete requests, for the examples that accompany the theorems.\<close>

definition sample_clock :: datetime where
  "sample_clock =
     \<lparr>year = 2024, month = 1, day = 2, hour = 3, minute = 4, second = 5, microsecond = 6789\<rparr>"

definition post_request :: "(string \<times> string) list \<Rightarrow> bytes \<Rightarrow> request" where
  "post_request hs bs =
     \<lparr>command = POST, path = ''/data'', headers = hs, client_address = ''192.168.1.50'',
      rfile = bs, now = sample_clock\<rparr>"

definition get_request :: "string \<Rightarrow> request" where
  "get_request p =
     \<lparr>command = GET, path = p, headers = [], client_address = ''192.168.1.50'', rfile = [],
      now = sample_clock\<rparr>"

text \<open>
  A line mentions a keyword, whatever the case of its letters: some run of the line has
  the keyword as its lower case.
\<close>

definition mentions_keyword :: "pystr \<Rightarrow> bool" where
  "mentions_keyword line =
     (\<exists>kw \<in> set keyword_list. \<exists>pre mid suf. line = pre @ mid @ suf \<and> py_lower mid = kw)"

text \<open>
  The real number that the double with mantissa \<open>m\<close> and exponent \<open>e\<close> stands for (its
  sign apart).
\<close>

definition fval :: "nat \<Rightarrow> int \<Rightarrow> real" where
  "fval m e = real m * 2 powi e"

text \<open>
  A text shows a number with three decimal places: an optional minus sign, at least one
  digit, a point, and exactly three digits.
\<close>

definition digit_cp :: "nat \<Rightarrow> bool" where
  "digit_cp c = (48 \<le> c \<and> c \<le> 57)"

definition three_decimals :: "pystr \<Rightarrow> bool" where
  "three_decimals s =
     (\<exists>sign ip fp. s = sign @ ip @ [46] @ fp \<and> (sign = [] \<or> sign = [45]) \<and> ip \<noteq> []
        \<and> list_all digit_cp ip \<and> length fp = 3 \<and> list_all digit_cp fp)"

section \<open>Auxiliary facts\<close>

subsection \<open>Encoding the handler's texts never fails\<close>

lemma encode_cp_Some: "encodable c \<Longrightarrow> \<exists>bs. encode_cp c = Some bs"
  by (auto simp: encodable_def encode_cp_def)

lemma utf8_encode_ok: "list_all encodable s \<Longrightarrow> \<exists>b. utf8_encode s = Inr b"
proof (induction s)
  case Nil
  then show ?case by simp
next
  case (Cons c cs)
  then obtain bs r where "encode_cp c = Some bs" "utf8_encode cs = Inr r"
    using encode_cp_Some by fastforce
  then show ?case by simp
qed

lemma small_encodable: "c < 256 \<Longrightarrow> encodable c"
  by (simp add: encodable_def)

lemma py_ord_less: "py_ord c < 256"
  by (simp add: py_ord_def)

lemma lit_encodable [simp]: "list_all encodable (lit s)"
  by (simp add: lit_def list_all_iff small_encodable py_ord_less)

lemma dec_encodable [simp]: "list_all encodable (dec n)"
proof (induction n rule: dec.induct)
  case (1 n)
  show ?case
  proof (cases "n < 10")
    case True
    then show ?thesis by (subst dec.simps) (simp add: encodable_def)
  next
    case False
    have "n mod 10 < 10" by simp
    then have "encodable (48 + n mod 10)" unfolding encodable_def by arith
    with False 1 show ?thesis by (subst dec.simps) simp
  qed
qed

lemma zpad_encodable: "list_all encodable s \<Longrightarrow> list_all encodable (zpad w s)"
proof (induction w s rule: zpad.induct)
  case (1 w s)
  show ?case
  proof (cases "length s < w")
    case True
    have "encodable 48" by (simp add: encodable_def)
    with True 1 show ?thesis by (subst zpad.simps) simp
  next
    case False
    with 1 show ?thesis by (subst zpad.simps) simp
  qed
qed

lemma str_int_encodable [simp]: "list_all encodable (str_int i)"
  by (simp add: str_int_def encodable_def)

lemma fixed3_encodable [simp]: "list_all encodable (fixed3 s r)"
  by (simp add: fixed3_def zpad_encodable) (simp add: encodable_def)

lemma format_3f_encodable [simp]: "list_all encodable (format_3f x)"
  by (cases x) (simp_all add: format_3f_def)

lemma format_num_3f_encodable [simp]: "list_all encodable (format_num_3f u)"
  by (cases u) (simp_all add: format_num_3f_def)

lemma strftime_seconds_encodable [simp]: "list_all encodable (strftime_seconds d)"
  by (simp add: strftime_seconds_def zpad_encodable) (simp add: encodable_def)

lemma strftime_micro_encodable [simp]: "list_all encodable (strftime_micro d)"
  by (simp add: strftime_micro_def zpad_encodable) (simp add: encodable_def)

lemma take_encodable: "list_all encodable s \<Longrightarrow> list_all encodable (take n s)"
  by (auto simp: list_all_iff dest: in_set_takeD)

lemma post_timestamp_encodable [simp]: "list_all encodable (post_timestamp rq)"
  by (simp add: post_timestamp_def take_encodable)

lemma response_message_encodable: "list_all encodable (response_message c n t u) = list_all encodable t"
  by (simp add: response_message_def) (simp add: encodable_def)



subsection \<open>The outcome of a POST\<close>

lemma post_outcome_ok:
  assumes "read_post_data rq = Inr pd" and "uptime_seconds (esp32_uptime rq) = Inr u"
  shows "\<exists>b. utf8_encode (response_message (esp32_counter rq) n (post_timestamp rq) u) = Inr b
           \<and> post_outcome n rq =
               Inr (post_log n (esp32_counter rq) u (post_timestamp rq) rq pd,
                    \<lparr>status = 200, sent_headers = [(''Content-type'', ''text/plain'')], body = b\<rparr>)"
proof -
  have "list_all encodable (response_message (esp32_counter rq) n (post_timestamp rq) u)"
    by (simp add: response_message_encodable)
  then obtain b where "utf8_encode (response_message (esp32_counter rq) n (post_timestamp rq) u) = Inr b"
    using utf8_encode_ok by blast
  with assms show ?thesis by (simp add: post_outcome_def)
qed


lemma do_POST_count: "message_count (fst (do_POST st rq)) = message_count st + 1"
  by (simp add: do_POST_def Let_def)




subsection \<open>The server loop\<close>

lemma serve_forever_Cons:
  "serve_forever st (rq # rqs) =
     (fst (serve_forever (fst (handle_request st rq)) rqs),
      snd (handle_request st rq) # snd (serve_forever (fst (handle_request st rq)) rqs))"
  by (simp split: prod.splits)

lemma serve_forever_length: "length (snd (serve_forever st rqs)) = length rqs"
proof (induction rqs arbitrary: st)
  case Nil
  then show ?case by simp
next
  case (Cons rq rqs)
  then show ?case by (simp only: serve_forever_Cons snd_conv length_Cons)
qed



subsection \<open>Evaluating the model on concrete requests\<close>

lemmas eval_header = hget.simps py_lower_def lower_cp_def lit_def py_ord_def
lemmas eval_int = py_int_def num_strip_def num_space_def is_digit_def split_sign_def
  digits_val_def int_max_str_digits_def
lemmas eval_float = py_float_def num_strip_def num_space_def is_digit_def split_sign_def
  digits_val_def parse_decimal_def parse_exponent_def of_decimal_def mk_float_def
  round_double_def ilog2_def scaled_le_def round_half_even_def bitlen.simps Let_def
  float_truediv_def
lemmas eval_format = format_3f_def fixed3_def zpad.simps dec.simps format_num_3f_def str_int_def
  mk_float_def round_double_def
lemmas eval_read = read_post_data_def read_body_def content_length_def rfile_read_def
  cont_def cbits_def push_cp_def

lemma sample_timestamp: "post_timestamp (post_request hs bs) = lit ''2024-01-02 03:04:05.006''"
  by (simp add: post_timestamp_def post_request_def sample_clock_def strftime_micro_def
      strftime_seconds_def zpad.simps dec.simps lit_def py_ord_def)

lemma read_no_length: "hget (headers rq) ''Content-Length'' = None \<Longrightarrow> read_post_data rq = Inr []"
  by (simp add: eval_read)

lemma uptime_absent:
  "hget (headers rq) ''X-ESP32-Uptime-MS'' = None \<Longrightarrow> uptime_seconds (esp32_uptime rq) = Inr (PyInt 0)"
  by (simp add: uptime_seconds_def esp32_uptime_def)

section \<open>The server counter\<close>



section \<open>Absent and unparseable headers\<close>

subsection \<open>Lines of the log\<close>

lemma lit_append: "lit (a @ b) = lit a @ lit b"
  by (simp add: lit_def)

lemma format_zero: "format_num_3f (PyInt 0) = lit ''0.000''"
  by (simp add: eval_format lit_def py_ord_def)

lemma tracking_lines_length: "length (tracking_lines n c u t rq) = 10"
  by (simp add: tracking_lines_def)

lemma post_log_tracking:
  "i < 10 \<Longrightarrow> post_log n c u t rq pd ! i = tracking_lines n c u t rq ! i"
  by (simp add: post_log_def nth_append tracking_lines_length)

lemma post_log_counter_line:
  "post_log n c u t rq pd ! 4 = lit ''   '' @ [128290] @ lit '' ESP32 Message Counter: '' @ lit c"
  by (simp add: post_log_tracking tracking_lines_def)

lemma post_log_uptime_line:
  "post_log n c u t rq pd ! 6
     = lit ''   '' @ [9201, 65039] @ lit ''  ESP32 Uptime: '' @ format_num_3f u @ lit '' seconds''"
  by (simp add: post_log_tracking tracking_lines_def)

lemma do_POST_ok:
  assumes "read_post_data rq = Inr pd" and "uptime_seconds (esp32_uptime rq) = Inr u"
  shows "\<exists>b. utf8_encode (response_message (esp32_counter rq) (message_count st + 1)
                   (post_timestamp rq) u) = Inr b
           \<and> do_POST st rq =
               (st\<lparr>message_count := message_count st + 1\<rparr>,
                Inr (post_log (message_count st + 1) (esp32_counter rq) u (post_timestamp rq) rq pd,
                     \<lparr>status = 200, sent_headers = [(''Content-type'', ''text/plain'')], body = b\<rparr>))"
  using post_outcome_ok [OF assms, of "message_count st + 1"]
  by (auto simp: do_POST_def Let_def)

lemma do_POST_zero_uptime:
  assumes "read_post_data rq = Inr pd" and "uptime_seconds (esp32_uptime rq) = Inr (PyInt 0)"
  shows "\<exists>printed resp. do_POST st rq = (st\<lparr>message_count := message_count st + 1\<rparr>, Inr (printed, resp))
           \<and> printed ! 6 = lit ''   '' @ [9201, 65039] @ lit ''  ESP32 Uptime: 0.000 seconds''
           \<and> status resp = 200
           \<and> utf8_encode
                ([9989] @ lit '' Message #'' @ lit (esp32_counter rq)
                 @ lit '' received successfully by your computer!''
                 @ [10, 128202] @ lit '' Server has now received '' @ str_int (message_count st + 1)
                 @ lit '' total messages.''
                 @ [10, 9200] @ lit '' Received at: '' @ post_timestamp rq
                 @ [10, 127919] @ lit '' ESP32 uptime: 0.000 seconds'') = Inr (body resp)"
proof -
  from do_POST_ok [OF assms, of st] obtain b where
    e: "utf8_encode (response_message (esp32_counter rq) (message_count st + 1)
          (post_timestamp rq) (PyInt 0)) = Inr b"
    and d: "do_POST st rq =
       (st\<lparr>message_count := message_count st + 1\<rparr>,
        Inr (post_log (message_count st + 1) (esp32_counter rq) (PyInt 0) (post_timestamp rq) rq pd,
             \<lparr>status = 200, sent_headers = [(''Content-type'', ''text/plain'')], body = b\<rparr>))"
    by blast
  have l: "post_log (message_count st + 1) (esp32_counter rq) (PyInt 0) (post_timestamp rq) rq pd ! 6
      = lit ''   '' @ [9201, 65039] @ lit ''  ESP32 Uptime: 0.000 seconds''"
    by (simp only: post_log_uptime_line format_zero) (simp add: lit_def)
  have m: "response_message (esp32_counter rq) (message_count st + 1) (post_timestamp rq) (PyInt 0)
      = [9989] @ lit '' Message #'' @ lit (esp32_counter rq)
                 @ lit '' received successfully by your computer!''
                 @ [10, 128202] @ lit '' Server has now received '' @ str_int (message_count st + 1)
                 @ lit '' total messages.''
                 @ [10, 9200] @ lit '' Received at: '' @ post_timestamp rq
                 @ [10, 127919] @ lit '' ESP32 uptime: 0.000 seconds''"
    by (simp only: response_message_def format_zero) (simp add: lit_def)
  from d l e m show ?thesis by simp
qed


section \<open>GET requests\<close>



section \<open>The length that the log reports\<close>

text \<open>
  Claim C8 says that the log reports the length of the payload in bytes.  The code
  prints \<^verbatim>\<open>len(post_data)\<close> of the decoded text, with the word \<^verbatim>\<open>bytes\<close> after it.
  For the two-byte body \<^verbatim>\<open>C3 A9\<close> (one accented letter), declared with
  \<^verbatim>\<open>Content-Length: 2\<close>, the handler reads two bytes and logs the length 1.
\<close>

theorem message_length_counts_code_points:
  "read_body (post_request [(''Content-Length'', ''2'')] [0xC3, 0xA9]) = Inr [0xC3, 0xA9]
   \<and> (\<exists>printed resp.
         snd (do_POST initial_state (post_request [(''Content-Length'', ''2'')] [0xC3, 0xA9]))
           = Inr (printed, resp)
         \<and> printed ! 14 = [128207] @ lit '' Message Length: 1 bytes'')"
proof -
  let ?rq = "post_request [(''Content-Length'', ''2'')] [0xC3, 0xA9]"
  have b: "read_body ?rq = Inr [0xC3, 0xA9]"
    by (simp add: post_request_def eval_read eval_header eval_int)
  then have pd: "read_post_data ?rq = Inr [233]"
    by (simp add: read_post_data_def cont_def cbits_def push_cp_def)
  have u: "uptime_seconds (esp32_uptime ?rq) = Inr (PyInt 0)"
    by (rule uptime_absent) (simp add: post_request_def eval_header)
  have h: "custom_header_lines ?rq = []"
    by (simp add: custom_header_lines_def esp32_headers_def post_request_def lit_def py_ord_def)
  have "post_log n c v t ?rq [233] ! 14 = [128207] @ lit '' Message Length: 1 bytes''" for n c v t
    by (simp add: post_log_def h nth_append tracking_lines_length content_lines_def
        str_int_def dec.simps lit_def py_ord_def)
  with do_POST_ok [OF pd u, of initial_state] b show ?thesis by auto
qed

section \<open>The echoed device counter\<close>

text \<open>
  Claim C9.  When a POST request has no \<^verbatim>\<open>X-ESP32-Message-Counter\<close> header and the
  handler gets as far as logging and responding (the body is read and decoded, the uptime
  is computed), the text \<^verbatim>\<open>N/A\<close> stands for the device counter in the log line and in
  the body of the 200 response.
\<close>

theorem absent_counter_echoed_as_NA:
  assumes "hget (headers rq) ''X-ESP32-Message-Counter'' = None"
    and "read_post_data rq = Inr pd"
    and "uptime_seconds (esp32_uptime rq) = Inr u"
  shows "\<exists>printed resp.
           do_POST st rq = (st\<lparr>message_count := message_count st + 1\<rparr>, Inr (printed, resp))
           \<and> printed ! 4 = lit ''   '' @ [128290] @ lit '' ESP32 Message Counter: N/A''
           \<and> status resp = 200
           \<and> utf8_encode
                ([9989] @ lit '' Message #N/A received successfully by your computer!''
                 @ [10, 128202] @ lit '' Server has now received '' @ str_int (message_count st + 1)
                 @ lit '' total messages.''
                 @ [10, 9200] @ lit '' Received at: '' @ post_timestamp rq
                 @ [10, 127919] @ lit '' ESP32 uptime: '' @ format_num_3f u @ lit '' seconds'')
               = Inr (body resp)"
proof -
  from assms(1) have c: "esp32_counter rq = ''N/A''" by (simp add: esp32_counter_def)
  from do_POST_ok [OF assms(2,3), of st] c obtain b where
    e: "utf8_encode (response_message ''N/A'' (message_count st + 1) (post_timestamp rq) u) = Inr b"
    and d: "do_POST st rq =
       (st\<lparr>message_count := message_count st + 1\<rparr>,
        Inr (post_log (message_count st + 1) ''N/A'' u (post_timestamp rq) rq pd,
             \<lparr>status = 200, sent_headers = [(''Content-type'', ''text/plain'')], body = b\<rparr>))"
    by auto
  have l: "post_log (message_count st + 1) ''N/A'' u (post_timestamp rq) rq pd ! 4
      = lit ''   '' @ [128290] @ lit '' ESP32 Message Counter: N/A''"
    by (simp only: post_log_counter_line) (simp add: lit_def)
  have m: "response_message ''N/A'' (message_count st + 1) (post_timestamp rq) u
      = [9989] @ lit '' Message #N/A received successfully by your computer!''
                 @ [10, 128202] @ lit '' Server has now received '' @ str_int (message_count st + 1)
                 @ lit '' total messages.''
                 @ [10, 9200] @ lit '' Received at: '' @ post_timestamp rq
                 @ [10, 127919] @ lit '' ESP32 uptime: '' @ format_num_3f u @ lit '' seconds''"
    by (simp only: response_message_def) (simp add: lit_def)
  from d l e m show ?thesis by simp
qed

text \<open>A POST request without any header and without a body.\<close>

theorem absent_counter_echoed_as_NA_witness:
  "hget (headers (post_request [] [])) ''X-ESP32-Message-Counter'' = None
   \<and> read_post_data (post_request [] []) = Inr []
   \<and> uptime_seconds (esp32_uptime (post_request [] [])) = Inr (PyInt 0)
   \<and> (\<exists>printed resp.
         do_POST initial_state (post_request [] []) = (\<lparr>message_count = 1\<rparr>, Inr (printed, resp))
         \<and> printed ! 4 = lit ''   '' @ [128290] @ lit '' ESP32 Message Counter: N/A''
         \<and> status resp = 200
         \<and> utf8_encode
              ([9989] @ lit '' Message #N/A received successfully by your computer!''
               @ [10, 128202] @ lit '' Server has now received 1 total messages.''
               @ [10, 9200] @ lit '' Received at: 2024-01-02 03:04:05.006''
               @ [10, 127919] @ lit '' ESP32 uptime: 0.000 seconds'')
             = Inr (body resp))"
proof -
  let ?rq = "post_request [] []"
  have h: "hget (headers ?rq) ''X-ESP32-Message-Counter'' = None"
    by (simp add: post_request_def)
  have r: "read_post_data ?rq = Inr []"
    by (rule read_no_length) (simp add: post_request_def)
  have u: "uptime_seconds (esp32_uptime ?rq) = Inr (PyInt 0)"
    by (rule uptime_absent) (simp add: post_request_def)
  from absent_counter_echoed_as_NA [OF h r u, of initial_state]
  have "\<exists>printed resp.
         do_POST initial_state ?rq = (\<lparr>message_count = 1\<rparr>, Inr (printed, resp))
         \<and> printed ! 4 = lit ''   '' @ [128290] @ lit '' ESP32 Message Counter: N/A''
         \<and> status resp = 200
         \<and> utf8_encode
              ([9989] @ lit '' Message #N/A received successfully by your computer!''
               @ [10, 128202] @ lit '' Server has now received 1 total messages.''
               @ [10, 9200] @ lit '' Received at: 2024-01-02 03:04:05.006''
               @ [10, 127919] @ lit '' ESP32 uptime: 0.000 seconds'')
             = Inr (body resp)"
    by (simp add: initial_state_def sample_timestamp format_zero str_int_def dec.simps lit_def py_ord_def)
  with h r u show ?thesis by blast
qed


section \<open>Malformed input\<close>

subsection \<open>The exceptions of the conversions\<close>

lemma py_float_NA: "py_float ''N/A'' = Inl ValueError"
  by (simp add: eval_float eval_header)

lemma py_int_error: "py_int v = Inl e \<Longrightarrow> e = ValueError"
  by (auto simp: py_int_def split: option.splits prod.splits if_splits)

lemma py_float_error: "py_float v = Inl e \<Longrightarrow> e = ValueError"
  by (auto simp: py_float_def split: option.splits prod.splits if_splits)

lemma push_cp_error: "push_cp c r = Inl e \<Longrightarrow> r = Inl e"
  by (cases r) (simp_all add: push_cp_def)

lemma utf8_decode_error: "utf8_decode bs = Inl e \<Longrightarrow> e = UnicodeDecodeError"
proof (induction bs rule: utf8_decode.induct)
  case 1
  then show ?case by simp
next
  case (2 b0 bs)
  from "2.prems" show ?case
    by (auto split: if_splits list.splits dest!: push_cp_error intro: "2.IH")
qed

lemma do_POST_read_error:
  "read_post_data rq = Inl e \<Longrightarrow>
     do_POST st rq = (st\<lparr>message_count := message_count st + 1\<rparr>, Inl e)"
  by (simp add: do_POST_def Let_def post_outcome_def)

lemma do_POST_uptime_error:
  "read_post_data rq = Inr pd \<Longrightarrow> uptime_seconds (esp32_uptime rq) = Inl e \<Longrightarrow>
     do_POST st rq = (st\<lparr>message_count := message_count st + 1\<rparr>, Inl e)"
  by (simp add: do_POST_def Let_def post_outcome_def)

text \<open>
  Claim C2 says that a malformed \<^verbatim>\<open>Content-Length\<close>, a body that is not UTF-8 and a
  non-numeric uptime header are each replaced by a default and answered with 200.  In the
  code each of them raises: three requests on which \<^verbatim>\<open>do_POST\<close> ends with an exception
  and without a response.
\<close>

theorem malformed_request_aborts_counterexample:
  "snd (do_POST initial_state (post_request [(''Content-Length'', ''abc'')] [])) = Inl ValueError
   \<and> snd (do_POST initial_state (post_request [(''Content-Length'', ''1'')] [0xFF]))
       = Inl UnicodeDecodeError
   \<and> snd (do_POST initial_state (post_request [(''X-ESP32-Uptime-MS'', ''12 ms'')] []))
       = Inl ValueError"
proof (intro conjI)
  have "read_post_data (post_request [(''Content-Length'', ''abc'')] []) = Inl ValueError"
    by (simp add: post_request_def eval_read eval_header eval_int)
  then show "snd (do_POST initial_state (post_request [(''Content-Length'', ''abc'')] []))
      = Inl ValueError"
    by (simp add: do_POST_read_error)
  have "read_post_data (post_request [(''Content-Length'', ''1'')] [0xFF]) = Inl UnicodeDecodeError"
    by (simp add: post_request_def eval_read eval_header eval_int)
  then show "snd (do_POST initial_state (post_request [(''Content-Length'', ''1'')] [0xFF]))
      = Inl UnicodeDecodeError"
    by (simp add: do_POST_read_error)
  have r: "read_post_data (post_request [(''X-ESP32-Uptime-MS'', ''12 ms'')] []) = Inr []"
    by (rule read_no_length) (simp add: post_request_def eval_header)
  have "py_float ''12 ms'' = Inl ValueError"
    by (simp add: eval_float eval_header)
  then have "uptime_seconds (esp32_uptime (post_request [(''X-ESP32-Uptime-MS'', ''12 ms'')] []))
      = Inl ValueError"
    by (simp add: uptime_seconds_def esp32_uptime_def post_request_def eval_header)
  with r show "snd (do_POST initial_state (post_request [(''X-ESP32-Uptime-MS'', ''12 ms'')] []))
      = Inl ValueError"
    by (simp add: do_POST_uptime_error)
qed

text \<open>
  Claim C2, as amended.  A \<^verbatim>\<open>Content-Length\<close> that \<^verbatim>\<open>int\<close> rejects, a body (as read)
  that is not valid UTF-8, and an uptime header other than \<^verbatim>\<open>N/A\<close> that \<^verbatim>\<open>float\<close>
  rejects each end \<^verbatim>\<open>do_POST\<close> with the exception of the conversion (\<^verbatim>\<open>ValueError\<close>,
  \<^verbatim>\<open>UnicodeDecodeError\<close>, \<^verbatim>\<open>ValueError\<close>): the counter has been incremented, nothing
  is printed and no response is sent.  Only absent headers get defaults: the length 0,
  the counter \<^verbatim>\<open>N/A\<close> and the uptime 0.
\<close>

theorem malformed_request_aborts:
  "(hget (headers rq) ''Content-Length'' = Some v \<and> py_int v = Inl e \<longrightarrow>
      e = ValueError
      \<and> do_POST st rq = (st\<lparr>message_count := message_count st + 1\<rparr>, Inl e))
   \<and> (read_body rq = Inr raw \<and> utf8_decode raw = Inl e \<longrightarrow>
      e = UnicodeDecodeError
      \<and> do_POST st rq = (st\<lparr>message_count := message_count st + 1\<rparr>, Inl e))
   \<and> (read_post_data rq = Inr pd \<and> hget (headers rq) ''X-ESP32-Uptime-MS'' = Some v
       \<and> v \<noteq> ''N/A'' \<and> py_float v = Inl e \<longrightarrow>
      e = ValueError
      \<and> do_POST st rq = (st\<lparr>message_count := message_count st + 1\<rparr>, Inl e))
   \<and> (hget (headers rq) ''Content-Length'' = None \<longrightarrow> content_length rq = Inr 0)
   \<and> (hget (headers rq) ''X-ESP32-Message-Counter'' = None \<longrightarrow> esp32_counter rq = ''N/A'')
   \<and> (hget (headers rq) ''X-ESP32-Uptime-MS'' = None \<longrightarrow>
        uptime_seconds (esp32_uptime rq) = Inr (PyInt 0))"
proof (intro conjI impI)
  assume a: "hget (headers rq) ''Content-Length'' = Some v \<and> py_int v = Inl e"
  then show "e = ValueError" by (auto dest: py_int_error)
  from a have "read_post_data rq = Inl e"
    by (simp add: read_post_data_def read_body_def content_length_def)
  then show "do_POST st rq = (st\<lparr>message_count := message_count st + 1\<rparr>, Inl e)"
    by (rule do_POST_read_error)
next
  assume a: "read_body rq = Inr raw \<and> utf8_decode raw = Inl e"
  then show "e = UnicodeDecodeError" by (auto dest: utf8_decode_error)
  from a have "read_post_data rq = Inl e" by (simp add: read_post_data_def)
  then show "do_POST st rq = (st\<lparr>message_count := message_count st + 1\<rparr>, Inl e)"
    by (rule do_POST_read_error)
next
  assume a: "read_post_data rq = Inr pd \<and> hget (headers rq) ''X-ESP32-Uptime-MS'' = Some v
       \<and> v \<noteq> ''N/A'' \<and> py_float v = Inl e"
  then show "e = ValueError" by (auto dest: py_float_error)
  from a have "uptime_seconds (esp32_uptime rq) = Inl e"
    by (simp add: uptime_seconds_def esp32_uptime_def)
  with a show "do_POST st rq = (st\<lparr>message_count := message_count st + 1\<rparr>, Inl e)"
    by (simp add: do_POST_uptime_error)
next
  assume "hget (headers rq) ''Content-Length'' = None"
  then show "content_length rq = Inr 0" by (simp add: content_length_def)
next
  assume "hget (headers rq) ''X-ESP32-Message-Counter'' = None"
  then show "esp32_counter rq = ''N/A''" by (simp add: esp32_counter_def)
next
  assume "hget (headers rq) ''X-ESP32-Uptime-MS'' = None"
  then show "uptime_seconds (esp32_uptime rq) = Inr (PyInt 0)" by (rule uptime_absent)
qed


text \<open>The three cases on concrete requests.\<close>

theorem malformed_request_aborts_witness:
  "hget (headers (post_request [(''Content-Length'', ''abc'')] [])) ''Content-Length'' = Some ''abc''
   \<and> py_int ''abc'' = Inl ValueError
   \<and> do_POST initial_state (post_request [(''Content-Length'', ''abc'')] [])
       = (\<lparr>message_count = 1\<rparr>, Inl ValueError)
   \<and> read_body (post_request [(''Content-Length'', ''1'')] [0xFF]) = Inr [0xFF]
   \<and> utf8_decode [0xFF] = Inl UnicodeDecodeError
   \<and> do_POST initial_state (post_request [(''Content-Length'', ''1'')] [0xFF])
       = (\<lparr>message_count = 1\<rparr>, Inl UnicodeDecodeError)
   \<and> read_post_data (post_request [(''X-ESP32-Uptime-MS'', ''12 ms'')] []) = Inr []
   \<and> hget (headers (post_request [(''X-ESP32-Uptime-MS'', ''12 ms'')] [])) ''X-ESP32-Uptime-MS''
       = Some ''12 ms''
   \<and> py_float ''12 ms'' = Inl ValueError
   \<and> do_POST initial_state (post_request [(''X-ESP32-Uptime-MS'', ''12 ms'')] [])
       = (\<lparr>message_count = 1\<rparr>, Inl ValueError)"
proof -
  let ?r1 = "post_request [(''Content-Length'', ''abc'')] []"
  let ?r2 = "post_request [(''Content-Length'', ''1'')] [0xFF]"
  let ?r3 = "post_request [(''X-ESP32-Uptime-MS'', ''12 ms'')] []"
  have h1: "hget (headers ?r1) ''Content-Length'' = Some ''abc''"
    by (simp add: post_request_def eval_header)
  have p1: "py_int ''abc'' = Inl ValueError"
    by (simp add: eval_int eval_header)
  have b2: "read_body ?r2 = Inr [0xFF]"
    by (simp add: post_request_def eval_read eval_header eval_int)
  have d2: "utf8_decode [0xFF] = Inl UnicodeDecodeError"
    by simp
  have r3: "read_post_data ?r3 = Inr []"
    by (rule read_no_length) (simp add: post_request_def eval_header)
  have h3: "hget (headers ?r3) ''X-ESP32-Uptime-MS'' = Some ''12 ms''"
    by (simp add: post_request_def eval_header)
  have p3: "py_float ''12 ms'' = Inl ValueError"
    by (simp add: eval_float eval_header)
  have n3: "''12 ms'' \<noteq> ''N/A''" by simp
  from malformed_request_aborts [of ?r1 "''abc''" ValueError initial_state] h1 p1
  have o1: "do_POST initial_state ?r1 = (\<lparr>message_count = 1\<rparr>, Inl ValueError)"
    by (simp add: initial_state_def)
  from malformed_request_aborts [of ?r2 _ UnicodeDecodeError initial_state "[0xFF]"] b2 d2
  have o2: "do_POST initial_state ?r2 = (\<lparr>message_count = 1\<rparr>, Inl UnicodeDecodeError)"
    by (simp add: initial_state_def)
  from malformed_request_aborts [of ?r3 "''12 ms''" ValueError initial_state _ "[]"] r3 h3 p3 n3
  have o3: "do_POST initial_state ?r3 = (\<lparr>message_count = 1\<rparr>, Inl ValueError)"
    by (simp add: initial_state_def)
  from h1 p1 o1 b2 d2 o2 r3 h3 p3 o3 show ?thesis by blast
qed

section \<open>The uptime header\<close>

text \<open>
  Claim C3 says that an uptime header that is absent or unparseable gives the uptime
  \<^verbatim>\<open>0.000\<close> in the log and in the response and is never fatal.  For the value
  \<^verbatim>\<open>unknown\<close> the handler raises \<^verbatim>\<open>ValueError\<close>: nothing is logged and no response is
  sent.
\<close>

theorem unparseable_uptime_counterexample:
  "hget (headers (post_request [(''X-ESP32-Uptime-MS'', ''unknown'')] [])) ''X-ESP32-Uptime-MS''
     = Some ''unknown''
   \<and> py_float ''unknown'' = Inl ValueError
   \<and> do_POST initial_state (post_request [(''X-ESP32-Uptime-MS'', ''unknown'')] [])
       = (\<lparr>message_count = 1\<rparr>, Inl ValueError)"
proof -
  let ?rq = "post_request [(''X-ESP32-Uptime-MS'', ''unknown'')] []"
  have h: "hget (headers ?rq) ''X-ESP32-Uptime-MS'' = Some ''unknown''"
    by (simp add: post_request_def eval_header)
  have p: "py_float ''unknown'' = Inl ValueError"
    by (simp add: eval_float eval_header)
  have r: "read_post_data ?rq = Inr []"
    by (rule read_no_length) (simp add: post_request_def eval_header)
  from h p have "uptime_seconds (esp32_uptime ?rq) = Inl ValueError"
    by (simp add: uptime_seconds_def esp32_uptime_def)
  from do_POST_uptime_error [OF r this, of initial_state] h p show ?thesis
    by (simp add: initial_state_def)
qed

text \<open>
  Claim C3, as amended.  When a POST request has no \<^verbatim>\<open>X-ESP32-Uptime-MS\<close> header (and
  its body is read and decoded), the uptime is 0, the log line and the acknowledgment
  both show \<^verbatim>\<open>0.000\<close> seconds, and the response has status 200.
\<close>

theorem absent_uptime_is_zero:
  assumes "hget (headers rq) ''X-ESP32-Uptime-MS'' = None"
    and "read_post_data rq = Inr pd"
  shows "uptime_seconds (esp32_uptime rq) = Inr (PyInt 0)
         \<and> (\<exists>printed resp.
               do_POST st rq = (st\<lparr>message_count := message_count st + 1\<rparr>, Inr (printed, resp))
               \<and> printed ! 6 = lit ''   '' @ [9201, 65039] @ lit ''  ESP32 Uptime: 0.000 seconds''
               \<and> status resp = 200
               \<and> utf8_encode
                    ([9989] @ lit '' Message #'' @ lit (esp32_counter rq)
                     @ lit '' received successfully by your computer!''
                     @ [10, 128202] @ lit '' Server has now received ''
                     @ str_int (message_count st + 1) @ lit '' total messages.''
                     @ [10, 9200] @ lit '' Received at: '' @ post_timestamp rq
                     @ [10, 127919] @ lit '' ESP32 uptime: 0.000 seconds'') = Inr (body resp))"
  using uptime_absent [OF assms(1)] do_POST_zero_uptime [OF assms(2), of st] by simp

text \<open>A POST request with a device counter and no uptime header.\<close>

theorem absent_uptime_is_zero_witness:
  "hget (headers (post_request [(''X-ESP32-Message-Counter'', ''41'')] [])) ''X-ESP32-Uptime-MS''
     = None
   \<and> read_post_data (post_request [(''X-ESP32-Message-Counter'', ''41'')] []) = Inr []
   \<and> (\<exists>printed resp.
         do_POST initial_state (post_request [(''X-ESP32-Message-Counter'', ''41'')] [])
           = (\<lparr>message_count = 1\<rparr>, Inr (printed, resp))
         \<and> printed ! 6 = lit ''   '' @ [9201, 65039] @ lit ''  ESP32 Uptime: 0.000 seconds''
         \<and> status resp = 200
         \<and> utf8_encode
              ([9989] @ lit '' Message #41 received successfully by your computer!''
               @ [10, 128202] @ lit '' Server has now received 1 total messages.''
               @ [10, 9200] @ lit '' Received at: 2024-01-02 03:04:05.006''
               @ [10, 127919] @ lit '' ESP32 uptime: 0.000 seconds'') = Inr (body resp))"
proof -
  let ?rq = "post_request [(''X-ESP32-Message-Counter'', ''41'')] []"
  have h: "hget (headers ?rq) ''X-ESP32-Uptime-MS'' = None"
    by (simp add: post_request_def eval_header)
  have r: "read_post_data ?rq = Inr []"
    by (rule read_no_length) (simp add: post_request_def eval_header)
  have c: "esp32_counter ?rq = ''41''"
    by (simp add: esp32_counter_def post_request_def eval_header)
  from absent_uptime_is_zero [OF h r, of initial_state]
  have "\<exists>printed resp.
         do_POST initial_state ?rq = (\<lparr>message_count = 1\<rparr>, Inr (printed, resp))
         \<and> printed ! 6 = lit ''   '' @ [9201, 65039] @ lit ''  ESP32 Uptime: 0.000 seconds''
         \<and> status resp = 200
         \<and> utf8_encode
              ([9989] @ lit '' Message #41 received successfully by your computer!''
               @ [10, 128202] @ lit '' Server has now received 1 total messages.''
               @ [10, 9200] @ lit '' Received at: 2024-01-02 03:04:05.006''
               @ [10, 127919] @ lit '' ESP32 uptime: 0.000 seconds'') = Inr (body resp)"
    by (simp add: c initial_state_def sample_timestamp str_int_def dec.simps lit_def py_ord_def)
  with h r show ?thesis by blast
qed

text \<open>
  Claim C10.  An \<^verbatim>\<open>X-ESP32-Uptime-MS\<close> header with the value \<^verbatim>\<open>N/A\<close> is
  indistinguishable from an absent one: \<^verbatim>\<open>esp32_uptime\<close> is the same string, no
  conversion is attempted (\<^verbatim>\<open>float('N/A')\<close> would raise), the uptime is 0 and is shown
  as \<^verbatim>\<open>0.000\<close> seconds in the log and in the response.
\<close>

theorem uptime_NA_treated_as_absent:
  assumes "hget (headers rq) ''X-ESP32-Uptime-MS'' = Some ''N/A''"
    and "read_post_data rq = Inr pd"
  shows "py_float ''N/A'' = Inl ValueError
         \<and> uptime_seconds (esp32_uptime rq) = Inr (PyInt 0)
         \<and> (\<forall>rq'. hget (headers rq') ''X-ESP32-Uptime-MS'' = None \<longrightarrow>
               esp32_uptime rq' = esp32_uptime rq
               \<and> uptime_seconds (esp32_uptime rq') = uptime_seconds (esp32_uptime rq))
         \<and> (\<exists>printed resp.
               do_POST st rq = (st\<lparr>message_count := message_count st + 1\<rparr>, Inr (printed, resp))
               \<and> printed ! 6 = lit ''   '' @ [9201, 65039] @ lit ''  ESP32 Uptime: 0.000 seconds''
               \<and> status resp = 200
               \<and> utf8_encode
                    ([9989] @ lit '' Message #'' @ lit (esp32_counter rq)
                     @ lit '' received successfully by your computer!''
                     @ [10, 128202] @ lit '' Server has now received ''
                     @ str_int (message_count st + 1) @ lit '' total messages.''
                     @ [10, 9200] @ lit '' Received at: '' @ post_timestamp rq
                     @ [10, 127919] @ lit '' ESP32 uptime: 0.000 seconds'') = Inr (body resp))"
proof -
  from assms(1) have e: "esp32_uptime rq = ''N/A''" by (simp add: esp32_uptime_def)
  then have u: "uptime_seconds (esp32_uptime rq) = Inr (PyInt 0)"
    by (simp add: uptime_seconds_def)
  have "esp32_uptime rq' = esp32_uptime rq
          \<and> uptime_seconds (esp32_uptime rq') = uptime_seconds (esp32_uptime rq)"
    if "hget (headers rq') ''X-ESP32-Uptime-MS'' = None" for rq'
    using that e by (simp add: esp32_uptime_def)
  with py_float_NA u do_POST_zero_uptime [OF assms(2) u, of st] show ?thesis by blast
qed

text \<open>A request with the header value \<^verbatim>\<open>N/A\<close>, compared with a request without it.\<close>

theorem uptime_NA_treated_as_absent_witness:
  "hget (headers (post_request [(''X-ESP32-Uptime-MS'', ''N/A'')] [])) ''X-ESP32-Uptime-MS''
     = Some ''N/A''
   \<and> read_post_data (post_request [(''X-ESP32-Uptime-MS'', ''N/A'')] []) = Inr []
   \<and> hget (headers (post_request [] [])) ''X-ESP32-Uptime-MS'' = None
   \<and> uptime_seconds (esp32_uptime (post_request [] []))
       = uptime_seconds (esp32_uptime (post_request [(''X-ESP32-Uptime-MS'', ''N/A'')] []))
   \<and> (\<exists>printed resp.
         do_POST initial_state (post_request [(''X-ESP32-Uptime-MS'', ''N/A'')] [])
           = (\<lparr>message_count = 1\<rparr>, Inr (printed, resp))
         \<and> printed ! 6 = lit ''   '' @ [9201, 65039] @ lit ''  ESP32 Uptime: 0.000 seconds''
         \<and> status resp = 200)"
proof -
  let ?rq = "post_request [(''X-ESP32-Uptime-MS'', ''N/A'')] []"
  have h: "hget (headers ?rq) ''X-ESP32-Uptime-MS'' = Some ''N/A''"
    by (simp add: post_request_def eval_header)
  have r: "read_post_data ?rq = Inr []"
    by (rule read_no_length) (simp add: post_request_def eval_header)
  have n: "hget (headers (post_request [] [])) ''X-ESP32-Uptime-MS'' = None"
    by (simp add: post_request_def)
  note t = uptime_NA_treated_as_absent [OF h r, of initial_state]
  from t n have "uptime_seconds (esp32_uptime (post_request [] []))
       = uptime_seconds (esp32_uptime ?rq)"
    by blast
  moreover from t have "\<exists>printed resp.
         do_POST initial_state ?rq = (\<lparr>message_count = 1\<rparr>, Inr (printed, resp))
         \<and> printed ! 6 = lit ''   '' @ [9201, 65039] @ lit ''  ESP32 Uptime: 0.000 seconds''
         \<and> status resp = 200"
    by (auto simp: initial_state_def)
  ultimately show ?thesis using h r n by blast
qed

section \<open>The scan for changing data\<close>

subsection \<open>The substring test\<close>

lemma starts_with_iff: "starts_with kw s \<longleftrightarrow> (\<exists>suf. s = kw @ suf)"
  by (induction kw s rule: starts_with.induct) auto

lemma py_in_iff: "py_in kw s \<longleftrightarrow> (\<exists>pre suf. s = pre @ kw @ suf)"
proof (induction s)
  case Nil
  then show ?case by auto
next
  case (Cons c cs)
  show ?case
  proof
    assume "py_in kw (c # cs)"
    then consider "starts_with kw (c # cs)" | "py_in kw cs" by auto
    then show "\<exists>pre suf. c # cs = pre @ kw @ suf"
    proof cases
      case 1
      then obtain suf where "c # cs = kw @ suf" by (auto simp: starts_with_iff)
      then have "c # cs = [] @ kw @ suf" by simp
      then show ?thesis by blast
    next
      case 2
      with Cons obtain pre suf where "cs = pre @ kw @ suf" by auto
      then have "c # cs = (c # pre) @ kw @ suf" by simp
      then show ?thesis by blast
    qed
  next
    assume "\<exists>pre suf. c # cs = pre @ kw @ suf"
    then obtain pre suf where e: "c # cs = pre @ kw @ suf" by blast
    show "py_in kw (c # cs)"
    proof (cases pre)
      case Nil
      with e have "starts_with kw (c # cs)" by (auto simp: starts_with_iff)
      then show ?thesis by simp
    next
      case (Cons p ps)
      with e have "cs = ps @ kw @ suf" by simp
      with Cons.IH have "py_in kw cs" by blast
      then show ?thesis by simp
    qed
  qed
qed

subsection \<open>Lower case and runs of the line\<close>

text \<open>
  A keyword occurs in the lower-cased line exactly when the line has a run whose lower
  case is the keyword.  Only U+0130 lowers to two code points, the letter \<^verbatim>\<open>i\<close> and
  U+0307; no keyword ends with \<^verbatim>\<open>i\<close> or contains U+0307, so an occurrence never cuts
  through the lower case of one character.
\<close>

lemma py_lower_append: "py_lower (a @ b) = py_lower a @ py_lower b"
  by (simp add: py_lower_def)

lemma py_lower_Cons: "py_lower (c # cs) = lower_cp c @ py_lower cs"
  by (simp add: py_lower_def)

lemma lower_cp_cases: "(\<exists>x. lower_cp c = [x]) \<or> lower_cp c = [105, 775]"
  by (auto simp: lower_cp_def)

lemma lowered_prefix:
  assumes "kw \<noteq> []" and "775 \<notin> set kw" and "last kw \<noteq> 105"
    and "py_lower l = kw @ suf"
  shows "\<exists>mid rest. l = mid @ rest \<and> py_lower mid = kw"
  using assms
proof (induction l arbitrary: kw)
  case Nil
  then show ?case by (simp add: py_lower_def)
next
  case (Cons c cs)
  from Cons.prems(1) obtain k ks where kw: "kw = k # ks" by (cases kw) auto
  from lower_cp_cases [of c] show ?case
  proof
    assume "\<exists>x. lower_cp c = [x]"
    then obtain x where x: "lower_cp c = [x]" by blast
    with Cons.prems(4) kw have k: "x = k" and r: "py_lower cs = ks @ suf"
      by (simp_all add: py_lower_Cons)
    show ?thesis
    proof (cases "ks = []")
      case True
      with x k kw have "py_lower [c] = kw" by (simp add: py_lower_def)
      moreover have "c # cs = [c] @ cs" by simp
      ultimately show ?thesis by blast
    next
      case False
      with Cons.prems kw have "775 \<notin> set ks" "last ks \<noteq> 105" by auto
      from Cons.IH [OF False this r] obtain mid rest where
        m: "cs = mid @ rest" "py_lower mid = ks" by blast
      with x k kw have "py_lower (c # mid) = kw" by (simp add: py_lower_Cons)
      moreover from m have "c # cs = (c # mid) @ rest" by simp
      ultimately show ?thesis by blast
    qed
  next
    assume x: "lower_cp c = [105, 775]"
    with Cons.prems(4) kw have k: "k = 105" and "775 # py_lower cs = ks @ suf"
      by (simp_all add: py_lower_Cons)
    then have "ks = [] \<or> (\<exists>ks'. ks = 775 # ks')" by (cases ks) auto
    with Cons.prems(2,3) kw k show ?thesis by auto
  qed
qed

lemma lowered_run:
  assumes "kw \<noteq> []" and "775 \<notin> set kw" and "last kw \<noteq> 105"
    and "py_lower l = pre @ kw @ suf"
  shows "\<exists>p mid s. l = p @ mid @ s \<and> py_lower mid = kw"
  using assms(4)
proof (induction l arbitrary: pre)
  case Nil
  with assms(1) show ?case by (simp add: py_lower_def)
next
  case (Cons c cs)
  show ?case
  proof (cases pre)
    case Nil
    with Cons.prems have "py_lower (c # cs) = kw @ suf" by simp
    from lowered_prefix [OF assms(1-3) this] obtain mid rest where
      "c # cs = mid @ rest" "py_lower mid = kw" by blast
    then have "c # cs = [] @ mid @ rest \<and> py_lower mid = kw" by simp
    then show ?thesis by blast
  next
    case (Cons a pre')
    have "\<exists>pre''. py_lower cs = pre'' @ kw @ suf"
    proof -
      from lower_cp_cases [of c] show ?thesis
      proof
        assume "\<exists>x. lower_cp c = [x]"
        then obtain x where "lower_cp c = [x]" by blast
        with Cons.prems Cons have "py_lower cs = pre' @ kw @ suf"
          by (simp add: py_lower_Cons)
        then show ?thesis by blast
      next
        assume "lower_cp c = [105, 775]"
        with Cons.prems Cons have e: "775 # py_lower cs = pre' @ kw @ suf"
          by (simp add: py_lower_Cons)
        show ?thesis
        proof (cases pre')
          case Nil
          with e assms(1,2) show ?thesis by (cases kw) auto
        next
          case (Cons b pre'')
          with e have "py_lower cs = pre'' @ kw @ suf" by simp
          then show ?thesis by blast
        qed
      qed
    qed
    then obtain pre'' where "py_lower cs = pre'' @ kw @ suf" by blast
    from Cons.IH [OF this] obtain p mid s where "cs = p @ mid @ s" "py_lower mid = kw" by blast
    then have "c # cs = (c # p) @ mid @ s \<and> py_lower mid = kw" by simp
    then show ?thesis by blast
  qed
qed

lemma keyword_list_safe:
  "kw \<in> set keyword_list \<Longrightarrow> kw \<noteq> [] \<and> 775 \<notin> set kw \<and> last kw \<noteq> 105"
  by (auto simp: keyword_list_def lit_def py_ord_def)

lemma mentions_keyword_iff:
  "mentions_keyword line \<longleftrightarrow> list_ex (\<lambda>keyword. py_in keyword (py_lower line)) keyword_list"
proof
  assume "mentions_keyword line"
  then obtain kw pre mid suf where
    k: "kw \<in> set keyword_list" and l: "line = pre @ mid @ suf" and m: "py_lower mid = kw"
    by (auto simp: mentions_keyword_def)
  from l m have "py_lower line = py_lower pre @ kw @ py_lower suf"
    by (simp add: py_lower_append)
  then have "py_in kw (py_lower line)" unfolding py_in_iff by blast
  with k show "list_ex (\<lambda>keyword. py_in keyword (py_lower line)) keyword_list"
    by (auto simp: list_ex_iff)
next
  assume "list_ex (\<lambda>keyword. py_in keyword (py_lower line)) keyword_list"
  then obtain kw where k: "kw \<in> set keyword_list" and "py_in kw (py_lower line)"
    by (auto simp: list_ex_iff)
  then obtain pre suf where e: "py_lower line = pre @ kw @ suf" by (auto simp: py_in_iff)
  from keyword_list_safe [OF k] have "kw \<noteq> []" "775 \<notin> set kw" "last kw \<noteq> 105" by auto
  from lowered_run [OF this e] k show "mentions_keyword line"
    by (auto simp: mentions_keyword_def)
qed

subsection \<open>The loop as a filter\<close>

lemma changing_data_fold:
  "foldl (\<lambda>acc line. if P line then acc @ [f line] else acc) acc ls = acc @ map f (filter P ls)"
  by (induction ls arbitrary: acc) auto

lemma changing_data_eq:
  "changing_data pd = map py_strip (filter mentions_keyword (split_lf pd))"
proof -
  have "(\<lambda>line. list_ex (\<lambda>keyword. py_in keyword (py_lower line)) keyword_list) = mentions_keyword"
    by (simp add: mentions_keyword_iff fun_eq_iff)
  then show ?thesis
    by (simp add: changing_data_def changing_data_fold)
qed

subsection \<open>The lines of a text\<close>

lemma split_lf_not_Nil: "split_lf s \<noteq> []"
  by (induction s) (auto split: list.splits)

lemma join_split_lf: "join [10] (split_lf s) = s"
proof (induction s)
  case Nil
  then show ?case by simp
next
  case (Cons c cs)
  obtain l ls where s: "split_lf cs = l # ls" using split_lf_not_Nil [of cs] by (cases "split_lf cs") auto
  with Cons show ?case by (cases ls) auto
qed

lemma split_lf_no_lf: "list_all (\<lambda>l. 10 \<notin> set l) (split_lf s)"
  by (induction s) (auto split: list.splits)


lemma post_log_ends_with_scan:
  "\<exists>pre. post_log n c u t rq pd = pre @ changing_lines pd @ [replicate 80 61 @ [10]]"
  by (simp add: post_log_def)

text \<open>
  Claim C6.  The payload is cut at its line feeds: the lines contain no line feed and,
  joined by line feeds, give the payload back.  \<^verbatim>\<open>changing_data\<close> holds, stripped and in
  the order of the payload, exactly the lines that mention a keyword, that is, that have
  a run whose lower case is one of \<^verbatim>\<open>counter\<close>, \<^verbatim>\<open>uptime\<close>, \<^verbatim>\<open>random\<close>, \<^verbatim>\<open>hash\<close>,
  \<^verbatim>\<open>heap\<close>, \<^verbatim>\<open>message number\<close>.  The log shows a heading and the first five of them
  (nothing when there is none), just before its closing rule.
\<close>

theorem changing_data_scan:
  "join [10] (split_lf pd) = pd
   \<and> list_all (\<lambda>l. 10 \<notin> set l) (split_lf pd)
   \<and> changing_data pd = map py_strip (filter mentions_keyword (split_lf pd))
   \<and> changing_lines pd =
       (if filter mentions_keyword (split_lf pd) = [] then []
        else ([10, 128269] @ lit '' CHANGING DATA DETECTED:'')
             # map (\<lambda>data. lit ''   '' @ [128200] @ lit '' '' @ data)
                 (take 5 (map py_strip (filter mentions_keyword (split_lf pd)))))
   \<and> length (changing_lines pd) \<le> 6
   \<and> (\<exists>pre. post_log n c u t rq pd = pre @ changing_lines pd @ [replicate 80 61 @ [10]])"
proof (intro conjI)
  show "join [10] (split_lf pd) = pd" by (rule join_split_lf)
  show "list_all (\<lambda>l. 10 \<notin> set l) (split_lf pd)" by (rule split_lf_no_lf)
  show "changing_data pd = map py_strip (filter mentions_keyword (split_lf pd))"
    by (rule changing_data_eq)
  show "changing_lines pd =
       (if filter mentions_keyword (split_lf pd) = [] then []
        else ([10, 128269] @ lit '' CHANGING DATA DETECTED:'')
             # map (\<lambda>data. lit ''   '' @ [128200] @ lit '' '' @ data)
                 (take 5 (map py_strip (filter mentions_keyword (split_lf pd)))))"
    by (simp add: changing_lines_def changing_data_eq)
  show "length (changing_lines pd) \<le> 6"
    by (simp add: changing_lines_def)
  show "\<exists>pre. post_log n c u t rq pd = pre @ changing_lines pd @ [replicate 80 61 @ [10]]"
    by (rule post_log_ends_with_scan)
qed

lemmas eval_scan = changing_data_def keyword_list_def py_lower_def lower_cp_def lit_def
  py_ord_def py_strip_def py_isspace_def

text \<open>
  One matching line among five, found whatever its case and logged stripped; and six
  matching lines, of which the first five are logged.
\<close>

theorem changing_data_scan_witness:
  "map py_strip (filter mentions_keyword
      (split_lf (lit ''Hello from ESP32'' @ [10] @ lit ''  Random value: 42 '' @ [10]
                 @ lit ''line three'' @ [10] @ lit ''free'' @ [10] @ lit ''done'')))
     = [lit ''Random value: 42'']
   \<and> changing_lines (lit ''Hello from ESP32'' @ [10] @ lit ''  Random value: 42 '' @ [10]
                 @ lit ''line three'' @ [10] @ lit ''free'' @ [10] @ lit ''done'')
     = [[10, 128269] @ lit '' CHANGING DATA DETECTED:'',
        lit ''   '' @ [128200] @ lit '' Random value: 42'']
   \<and> changing_lines (lit ''heap 1'' @ [10] @ lit ''Heap 2'' @ [10] @ lit ''x'' @ [10]
                 @ lit ''HEAP 3'' @ [10] @ lit ''heap 4'' @ [10] @ lit ''heap 5'' @ [10]
                 @ lit ''heap 6'')
     = [[10, 128269] @ lit '' CHANGING DATA DETECTED:'',
        lit ''   '' @ [128200] @ lit '' heap 1'', lit ''   '' @ [128200] @ lit '' Heap 2'',
        lit ''   '' @ [128200] @ lit '' HEAP 3'', lit ''   '' @ [128200] @ lit '' heap 4'',
        lit ''   '' @ [128200] @ lit '' heap 5'']"
proof -
  let ?a = "lit ''Hello from ESP32'' @ [10] @ lit ''  Random value: 42 '' @ [10]
                 @ lit ''line three'' @ [10] @ lit ''free'' @ [10] @ lit ''done''"
  let ?b = "lit ''heap 1'' @ [10] @ lit ''Heap 2'' @ [10] @ lit ''x'' @ [10]
                 @ lit ''HEAP 3'' @ [10] @ lit ''heap 4'' @ [10] @ lit ''heap 5'' @ [10]
                 @ lit ''heap 6''"
  have a: "changing_data ?a = [lit ''Random value: 42'']"
    by (simp add: eval_scan)
  have b: "changing_data ?b
      = [lit ''heap 1'', lit ''Heap 2'', lit ''HEAP 3'', lit ''heap 4'', lit ''heap 5'',
         lit ''heap 6'']"
    by (simp add: eval_scan)
  from changing_data_scan [of ?a] a
  have 1: "map py_strip (filter mentions_keyword (split_lf ?a)) = [lit ''Random value: 42'']"
    by simp
  have 2: "changing_lines ?a = [[10, 128269] @ lit '' CHANGING DATA DETECTED:'',
        lit ''   '' @ [128200] @ lit '' Random value: 42'']"
    unfolding changing_lines_def a by (simp add: lit_def)
  have 3: "changing_lines ?b = [[10, 128269] @ lit '' CHANGING DATA DETECTED:'',
        lit ''   '' @ [128200] @ lit '' heap 1'', lit ''   '' @ [128200] @ lit '' Heap 2'',
        lit ''   '' @ [128200] @ lit '' HEAP 3'', lit ''   '' @ [128200] @ lit '' heap 4'',
        lit ''   '' @ [128200] @ lit '' heap 5'']"
    unfolding changing_lines_def b by (simp add: lit_def)
  from 1 2 3 show ?thesis by blast
qed

section \<open>Reading the body\<close>

lemma rfile_read_take:
  "0 \<le> n \<Longrightarrow> n \<le> 2 ^ 63 - 34 \<Longrightarrow> rfile_read stream n = Inr (take (nat n) stream)"
  by (simp add: rfile_read_def)

lemma py_int_zero: "py_int ''0'' = Inr 0"
  by (simp add: eval_int eval_header)

lemma read_zero_length:
  "hget (headers rq) ''Content-Length'' = None \<or> hget (headers rq) ''Content-Length'' = Some ''0''
     \<Longrightarrow> read_body rq = Inr []"
  by (auto simp: read_body_def content_length_def rfile_read_def py_int_zero)

text \<open>
  Claim C5 says that every POST request has exactly \<^verbatim>\<open>Content-Length\<close> bytes read from its
  body.  The handler passes the declared length to \<^verbatim>\<open>read\<close> and does not compare it
  with what arrives: with \<^verbatim>\<open>Content-Length: 5\<close> and a body of one byte, one byte is read
  and the request is answered with 200; with \<^verbatim>\<open>Content-Length: -1\<close> the whole stream is
  read.
\<close>

theorem short_body_counterexample:
  "content_length (post_request [(''Content-Length'', ''5'')] [0x61]) = Inr 5
   \<and> read_body (post_request [(''Content-Length'', ''5'')] [0x61]) = Inr [0x61]
   \<and> map_sum id (status \<circ> snd)
        (snd (do_POST initial_state (post_request [(''Content-Length'', ''5'')] [0x61]))) = Inr 200
   \<and> content_length (post_request [(''Content-Length'', ''-1'')] [0x61, 0x62, 0x63]) = Inr (- 1)
   \<and> read_body (post_request [(''Content-Length'', ''-1'')] [0x61, 0x62, 0x63])
       = Inr [0x61, 0x62, 0x63]"
proof -
  let ?rq = "post_request [(''Content-Length'', ''5'')] [0x61]"
  let ?m = "post_request [(''Content-Length'', ''-1'')] [0x61, 0x62, 0x63]"
  have c: "content_length ?rq = Inr 5"
    by (simp add: post_request_def content_length_def eval_header eval_int)
  then have b: "read_body ?rq = Inr [0x61]"
    by (simp add: read_body_def rfile_read_def post_request_def)
  then have p: "read_post_data ?rq = Inr [97]"
    by (simp add: read_post_data_def push_cp_def)
  have u: "uptime_seconds (esp32_uptime ?rq) = Inr (PyInt 0)"
    by (rule uptime_absent) (simp add: post_request_def eval_header)
  from do_POST_ok [OF p u, of initial_state]
  have d: "map_sum id (status \<circ> snd) (snd (do_POST initial_state ?rq)) = Inr 200"
    by auto
  have c': "content_length ?m = Inr (- 1)"
    by (simp add: post_request_def content_length_def eval_header eval_int)
  then have b': "read_body ?m = Inr [0x61, 0x62, 0x63]"
    by (simp add: read_body_def rfile_read_def post_request_def)
  from c b d c' b' show ?thesis by simp
qed

text \<open>
  Claim C5, as amended.  Without a \<^verbatim>\<open>Content-Length\<close> header the declared length is 0 and
  the body read is empty.  With a header that \<^verbatim>\<open>int\<close> accepts as a length \<open>n\<close>, not negative
  and not beyond the bytes that arrive (nor beyond the largest byte string), the handler
  reads exactly the first \<open>n\<close> bytes and decodes them.  With the length 0, declared or
  by default, the payload is empty, the counter is still incremented, and the request is
  answered with 200 whenever the uptime header is absent or accepted; absent custom
  headers are replaced by their defaults.
\<close>

theorem reads_declared_length:
  "(hget (headers rq) ''Content-Length'' = None \<longrightarrow> content_length rq = Inr 0 \<and> read_body rq = Inr [])
   \<and> (hget (headers rq) ''Content-Length'' = Some v \<and> py_int v = Inr n \<and> 0 \<le> n
        \<and> n \<le> int (length (rfile rq)) \<and> n \<le> 2 ^ 63 - 34 \<longrightarrow>
        read_body rq = Inr (take (nat n) (rfile rq))
        \<and> int (length (take (nat n) (rfile rq))) = n
        \<and> read_post_data rq = utf8_decode (take (nat n) (rfile rq)))
   \<and> (hget (headers rq) ''Content-Length'' = None
        \<or> hget (headers rq) ''Content-Length'' = Some ''0'' \<longrightarrow>
        read_post_data rq = Inr []
        \<and> message_count (fst (do_POST st rq)) = message_count st + 1
        \<and> (\<forall>x. uptime_seconds (esp32_uptime rq) = Inr x \<longrightarrow>
              (\<exists>printed resp. snd (do_POST st rq) = Inr (printed, resp) \<and> status resp = 200
                 \<and> utf8_encode (response_message (esp32_counter rq) (message_count st + 1)
                                   (post_timestamp rq) x) = Inr (body resp)))
        \<and> (hget (headers rq) ''X-ESP32-Uptime-MS'' = None \<longrightarrow>
              uptime_seconds (esp32_uptime rq) = Inr (PyInt 0))
        \<and> (hget (headers rq) ''X-ESP32-Message-Counter'' = None \<longrightarrow>
              esp32_counter rq = ''N/A''))"
proof (intro conjI impI allI)
  assume "hget (headers rq) ''Content-Length'' = None"
  then show "content_length rq = Inr 0" "read_body rq = Inr []"
    by (simp_all add: content_length_def read_zero_length)
next
  assume a: "hget (headers rq) ''Content-Length'' = Some v \<and> py_int v = Inr n \<and> 0 \<le> n
        \<and> n \<le> int (length (rfile rq)) \<and> n \<le> 2 ^ 63 - 34"
  then show b: "read_body rq = Inr (take (nat n) (rfile rq))"
    by (simp add: read_body_def content_length_def rfile_read_take)
  from a have "nat n \<le> length (rfile rq)" by linarith
  with a show "int (length (take (nat n) (rfile rq))) = n" by (simp add: min_absorb2)
  from b show "read_post_data rq = utf8_decode (take (nat n) (rfile rq))"
    by (simp add: read_post_data_def)
next
  assume a: "hget (headers rq) ''Content-Length'' = None
        \<or> hget (headers rq) ''Content-Length'' = Some ''0''"
  then show r: "read_post_data rq = Inr []"
    by (simp add: read_post_data_def read_zero_length)
  show "message_count (fst (do_POST st rq)) = message_count st + 1" by (rule do_POST_count)
  {
    fix x
    assume "uptime_seconds (esp32_uptime rq) = Inr x"
    from do_POST_ok [OF r this, of st]
    show "\<exists>printed resp. snd (do_POST st rq) = Inr (printed, resp) \<and> status resp = 200
                 \<and> utf8_encode (response_message (esp32_counter rq) (message_count st + 1)
                                   (post_timestamp rq) x) = Inr (body resp)"
      by auto
  }
  {
    assume "hget (headers rq) ''X-ESP32-Uptime-MS'' = None"
    then show "uptime_seconds (esp32_uptime rq) = Inr (PyInt 0)" by (rule uptime_absent)
  }
  {
    assume "hget (headers rq) ''X-ESP32-Message-Counter'' = None"
    then show "esp32_counter rq = ''N/A''" by (simp add: esp32_counter_def)
  }
qed


text \<open>
  Three of four bytes read with \<^verbatim>\<open>Content-Length: 3\<close>; a request with
  \<^verbatim>\<open>Content-Length: 0\<close>, no body and no custom headers.
\<close>

theorem reads_declared_length_witness:
  "hget (headers (post_request [(''Content-Length'', ''3'')] [0x61, 0x62, 0x63, 0x64]))
      ''Content-Length'' = Some ''3''
   \<and> py_int ''3'' = Inr 3
   \<and> read_body (post_request [(''Content-Length'', ''3'')] [0x61, 0x62, 0x63, 0x64])
       = Inr [0x61, 0x62, 0x63]
   \<and> read_post_data (post_request [(''Content-Length'', ''3'')] [0x61, 0x62, 0x63, 0x64])
       = Inr (lit ''abc'')
   \<and> hget (headers (post_request [(''Content-Length'', ''0'')] [])) ''Content-Length'' = Some ''0''
   \<and> read_post_data (post_request [(''Content-Length'', ''0'')] []) = Inr []
   \<and> message_count (fst (do_POST initial_state (post_request [(''Content-Length'', ''0'')] []))) = 1
   \<and> (\<exists>printed resp.
         snd (do_POST initial_state (post_request [(''Content-Length'', ''0'')] []))
           = Inr (printed, resp)
         \<and> status resp = 200
         \<and> utf8_encode (response_message ''N/A'' 1 (lit ''2024-01-02 03:04:05.006'') (PyInt 0))
             = Inr (body resp))"
proof -
  let ?a = "post_request [(''Content-Length'', ''3'')] [0x61, 0x62, 0x63, 0x64]"
  let ?z = "post_request [(''Content-Length'', ''0'')] []"
  have ha: "hget (headers ?a) ''Content-Length'' = Some ''3''"
    by (simp add: post_request_def eval_header)
  have ia: "py_int ''3'' = Inr 3"
    by (simp add: eval_int eval_header)
  have la: "(3::int) \<le> int (length (rfile ?a))" "(0::int) \<le> 3" "(3::int) \<le> 2 ^ 63 - 34"
    by (simp_all add: post_request_def)
  from reads_declared_length [of ?a "''3''" 3] ha ia la
  have ba: "read_body ?a = Inr (take (nat 3) (rfile ?a))"
    and pa: "read_post_data ?a = utf8_decode (take (nat 3) (rfile ?a))"
    by blast+
  from ba have ba': "read_body ?a = Inr [0x61, 0x62, 0x63]"
    by (simp add: post_request_def)
  from pa have pa': "read_post_data ?a = Inr (lit ''abc'')"
    by (simp add: post_request_def push_cp_def lit_def py_ord_def)
  have hz: "hget (headers ?z) ''Content-Length'' = Some ''0''"
    by (simp add: post_request_def eval_header)
  have uz: "hget (headers ?z) ''X-ESP32-Uptime-MS'' = None"
    and cz: "hget (headers ?z) ''X-ESP32-Message-Counter'' = None"
    by (simp_all add: post_request_def eval_header)
  note z = reads_declared_length [of ?z _ _ initial_state]
  from z hz have rz: "read_post_data ?z = Inr []" by blast
  from z hz have nz: "message_count (fst (do_POST initial_state ?z)) = 1"
    by (simp add: initial_state_def)
  from z hz uz have u: "uptime_seconds (esp32_uptime ?z) = Inr (PyInt 0)" by blast
  from z hz cz have c: "esp32_counter ?z = ''N/A''" by blast
  from z hz u have "\<exists>printed resp. snd (do_POST initial_state ?z) = Inr (printed, resp)
      \<and> status resp = 200
      \<and> utf8_encode (response_message (esp32_counter ?z) (message_count initial_state + 1)
                        (post_timestamp ?z) (PyInt 0)) = Inr (body resp)"
    by blast
  then have oz: "\<exists>printed resp. snd (do_POST initial_state ?z) = Inr (printed, resp)
      \<and> status resp = 200
      \<and> utf8_encode (response_message ''N/A'' 1 (lit ''2024-01-02 03:04:05.006'') (PyInt 0))
          = Inr (body resp)"
    by (simp add: c sample_timestamp initial_state_def)
  from ha ia ba' pa' hz rz nz oz show ?thesis by blast
qed

section \<open>The uptime in seconds\<close>

subsection \<open>Rounding to a double\<close>

lemma bitlen_bounds: "0 < n \<Longrightarrow> 2 ^ (bitlen n - 1) \<le> n \<and> n < 2 ^ bitlen n"
proof (induction n rule: bitlen.induct)
  case (1 n)
  show ?case
  proof (cases "n div 2 = 0")
    case True
    with "1.prems" have "n = 1" by (cases n) auto
    then show ?thesis by (simp add: bitlen.simps)
  next
    case False
    then have p: "0 < n div 2" by simp
    from "1.prems" have n0: "n \<noteq> 0" by simp
    from "1.IH" [OF n0 p] have
      a: "2 ^ (bitlen (n div 2) - 1) \<le> n div 2" and b: "n div 2 < 2 ^ bitlen (n div 2)" by auto
    have bl: "bitlen n = Suc (bitlen (n div 2))" using n0 by (subst bitlen.simps) simp
    have pos: "0 < bitlen (n div 2)" using p by (subst bitlen.simps) simp
    then have e: "2 ^ (bitlen n - 1) = 2 * (2::nat) ^ (bitlen (n div 2) - 1)"
      using bl by (cases "bitlen (n div 2)") auto
    from a have "2 * 2 ^ (bitlen (n div 2) - 1) \<le> 2 * (n div 2)" by simp
    also have "\<dots> \<le> n" by simp
    finally have lo: "2 ^ (bitlen n - 1) \<le> n" using e by simp
    from b have "n div 2 + 1 \<le> 2 ^ bitlen (n div 2)" by simp
    then have "2 * (n div 2 + 1) \<le> 2 * 2 ^ bitlen (n div 2)" by simp
    moreover have "n < 2 * (n div 2 + 1)" by presburger
    ultimately have "n < 2 ^ bitlen n" using bl by simp
    with lo show ?thesis by simp
  qed
qed

lemma bitlen_pos: "0 < n \<Longrightarrow> 0 < bitlen n"
  by (subst bitlen.simps) simp

lemma scaled_le_real: "scaled_le q L p \<longleftrightarrow> real q * 2 powi L \<le> real p"
proof (cases "0 \<le> L")
  case True
  then have "(2::real) powi L = 2 ^ nat L" by (simp add: power_int_def)
  moreover have "real q * 2 ^ nat L \<le> real p \<longleftrightarrow> q * 2 ^ nat L \<le> p"
    using of_nat_le_iff [where ?'a = real, of "q * 2 ^ nat L" p] by simp
  ultimately show ?thesis using True by (simp add: scaled_le_def)
next
  case False
  then have "(2::real) powi L = inverse (2 ^ nat (- L))"
    by (simp add: power_int_def power_one_over inverse_eq_divide)
  moreover have "real q * inverse (2 ^ nat (- L)) \<le> real p \<longleftrightarrow> real q \<le> real p * 2 ^ nat (- L)"
    by (simp add: field_simps)
  moreover have "real q \<le> real p * 2 ^ nat (- L) \<longleftrightarrow> q \<le> p * 2 ^ nat (- L)"
    using of_nat_le_iff [where ?'a = real, of q "p * 2 ^ nat (- L)"] by simp
  ultimately show ?thesis using False by (simp add: scaled_le_def)
qed


lemma bitlen_real:
  assumes "0 < n"
  shows "2 powi (int (bitlen n) - 1) \<le> real n" and "real n < 2 powi (int (bitlen n))"
proof -
  from bitlen_pos [OF assms] have e: "int (bitlen n) - 1 = int (bitlen n - 1)" by simp
  from bitlen_bounds [OF assms] have "real ((2::nat) ^ (bitlen n - 1)) \<le> real n"
    and "real n < real ((2::nat) ^ bitlen n)"
    by (simp_all only: of_nat_le_iff of_nat_less_iff)
  then show "2 powi (int (bitlen n) - 1) \<le> real n" and "real n < 2 powi (int (bitlen n))"
    by (simp_all add: e)
qed

lemma two_powi_add: "(2::real) powi (a + b) = 2 powi a * 2 powi b"
  by (simp add: power_int_add)

lemma two_powi_pos: "0 < (2::real) powi a"
  by simp

lemma ilog2_lower:
  assumes "0 < p" and "0 < q"
  shows "real q * 2 powi (ilog2 p q) \<le> real p"
proof (cases "scaled_le q (int (bitlen p) - int (bitlen q)) p")
  case True
  then show ?thesis by (simp add: ilog2_def Let_def scaled_le_real)
next
  case False
  let ?L = "int (bitlen p) - int (bitlen q)"
  have "real q * 2 powi (?L - 1) \<le> 2 powi (int (bitlen q)) * 2 powi (?L - 1)"
    using bitlen_real(2) [OF assms(2)] by (simp add: mult_right_mono)
  also have "\<dots> = 2 powi (int (bitlen q) + (?L - 1))" by (simp only: two_powi_add)
  also have "\<dots> = 2 powi (int (bitlen p) - 1)" by simp
  also have "\<dots> \<le> real p" by (rule bitlen_real(1) [OF assms(1)])
  finally show ?thesis using False by (simp add: ilog2_def Let_def)
qed

lemma ilog2_upper:
  assumes "0 < p" and "0 < q"
  shows "real p < real q * 2 powi (ilog2 p q + 1)"
proof (cases "scaled_le q (int (bitlen p) - int (bitlen q)) p")
  case True
  let ?L = "int (bitlen p) - int (bitlen q)"
  have "real p < 2 powi (int (bitlen p))" by (rule bitlen_real(2) [OF assms(1)])
  also have "\<dots> = 2 powi ((int (bitlen q) - 1) + (?L + 1))" by simp
  also have "\<dots> = 2 powi (int (bitlen q) - 1) * 2 powi (?L + 1)" by (simp only: two_powi_add)
  also have "\<dots> \<le> real q * 2 powi (?L + 1)"
    using bitlen_real(1) [OF assms(2)] by (simp add: mult_right_mono)
  finally show ?thesis using True by (simp add: ilog2_def Let_def)
next
  case False
  then show ?thesis by (simp add: ilog2_def Let_def scaled_le_real)
qed

lemma round_half_even_error:
  assumes "0 < d"
  shows "\<bar>real (round_half_even n d) - real n / real d\<bar> \<le> 1 / 2"
proof -
  let ?q = "n div d" and ?r = "n mod d"
  have n: "real n = real ?q * real d + real ?r"
    by (metis of_nat_add of_nat_mult div_mult_mod_eq)
  have d: "0 < real d" using assms by simp
  have r: "real ?r < real d" using assms by simp
  have e: "real n / real d = real ?q + real ?r / real d"
    using d by (simp add: n field_simps)
  show ?thesis
  proof (cases "2 * ?r < d")
    case True
    then have "2 * real ?r < real d" by (metis of_nat_less_iff of_nat_mult of_nat_numeral)
    then have "real ?r / real d \<le> 1 / 2" using d by (simp add: field_simps)
    moreover have "0 \<le> real ?r / real d" using d by simp
    ultimately show ?thesis using True by (simp add: round_half_even_def Let_def e)
  next
    case False
    then have g: "real d \<le> 2 * real ?r" by (metis not_less of_nat_le_iff of_nat_mult of_nat_numeral)
    then have h: "1 / 2 \<le> real ?r / real d" using d by (simp add: field_simps)
    have l: "real ?r / real d < 1" using d r by simp
    show ?thesis
    proof (cases "d < 2 * ?r")
      case True
      with False h l show ?thesis by (simp add: round_half_even_def Let_def e)
    next
      case F2: False
      with False have "2 * ?r = d" by simp
      then have "2 * real ?r = real d" by (metis of_nat_mult of_nat_numeral)
      then have "real ?r / real d = 1 / 2" using d by (simp add: field_simps)
      with False F2 show ?thesis by (simp add: round_half_even_def Let_def e)
    qed
  qed
qed

lemma round_half_even_nearest:
  assumes "0 < d" and "\<bar>real n / real d - real k\<bar> < 1 / 2"
  shows "round_half_even n d = k"
proof -
  let ?q = "n div d" and ?r = "n mod d"
  have n: "real n = real ?q * real d + real ?r"
    by (metis of_nat_add of_nat_mult div_mult_mod_eq)
  have d: "0 < real d" using assms by simp
  have r: "real ?r < real d" using assms by simp
  have e: "real n / real d = real ?q + real ?r / real d"
    using d by (simp add: n field_simps)
  have l: "real ?r / real d < 1" "0 \<le> real ?r / real d" using d r by simp_all
  show ?thesis
  proof (cases "2 * ?r < d")
    case True
    then have "2 * real ?r < real d" by (metis of_nat_less_iff of_nat_mult of_nat_numeral)
    then have "real ?r / real d < 1 / 2" using d by (simp add: field_simps)
    with assms(2) e l have "\<bar>real ?q - real k\<bar> < 1" by linarith
    then have "?q = k" by linarith
    with True show ?thesis by (simp add: round_half_even_def Let_def)
  next
    case False
    then have g: "real d \<le> 2 * real ?r" by (metis not_less of_nat_le_iff of_nat_mult of_nat_numeral)
    then have h: "1 / 2 \<le> real ?r / real d" using d by (simp add: field_simps)
    show ?thesis
    proof (cases "d < 2 * ?r")
      case True
      then have "real d < 2 * real ?r" by (metis of_nat_less_iff of_nat_mult of_nat_numeral)
      then have "1 / 2 < real ?r / real d" using d by (simp add: field_simps)
      with assms(2) e l have "\<bar>real ?q + 1 - real k\<bar> < 1" by linarith
      then have "?q + 1 = k" by linarith
      with True False show ?thesis by (simp add: round_half_even_def Let_def)
    next
      case F2: False
      with False have "2 * ?r = d" by simp
      then have "2 * real ?r = real d" by (metis of_nat_mult of_nat_numeral)
      then have "real ?r / real d = 1 / 2" using d by (simp add: field_simps)
      with assms(2) e have "\<bar>real ?q + 1 / 2 - real k\<bar> < 1 / 2" by simp
      then have "real ?q < real k" and "real k < real (?q + 1)" by (simp_all only: of_nat_add of_nat_1)
      then have "?q < k" and "k < ?q + 1" by (simp_all only: of_nat_less_iff)
      then have False by arith
      then show ?thesis ..
    qed
  qed
qed


lemma scaled_ratio:
  assumes "0 < q"
  shows "real (p * 2 ^ nat (- ex)) / real (q * 2 ^ nat ex) = real p / real q * 2 powi (- ex)"
proof (cases "0 \<le> ex")
  case True
  then have h: "(2::real) powi (- ex) = inverse (2 ^ nat ex)"
    by (simp add: power_int_def power_one_over inverse_eq_divide)
  from True have n: "nat (- ex) = 0" by simp
  show ?thesis unfolding h n by (simp add: divide_inverse)
next
  case False
  then have "(2::real) powi (- ex) = 2 ^ nat (- ex)" by (simp add: power_int_def)
  with False show ?thesis by simp
qed

lemma two_powi_minus: "(2::real) powi (- a) * 2 powi a = 1"
  by (simp flip: two_powi_add)

lemma scale_back: "(a - c * 2 powi (- ex)) * 2 powi ex = a * 2 powi ex - (c::real)"
proof -
  have "(a - c * 2 powi (- ex)) * 2 powi ex = a * 2 powi ex - c * (2 powi (- ex) * 2 powi ex)"
    by (simp only: left_diff_distrib mult.assoc)
  then show ?thesis by (simp only: two_powi_minus mult_1_right)
qed

lemma round_double_Some:
  assumes "0 < p" and "0 < q" and "round_double p q = Some (m, ex)"
  shows "ex = max (ilog2 p q - 52) (- 1074)"
    and "m = round_half_even (p * 2 ^ nat (- ex)) (q * 2 ^ nat ex)"
    and "ex \<le> 971" and "ex = 971 \<longrightarrow> m < 2 ^ 53"
  using assms by (auto simp: round_double_def Let_def split: if_splits)

lemma round_double_error:
  assumes "0 < p" and "0 < q" and "round_double p q = Some (m, ex)"
  shows "\<bar>fval m ex - real p / real q\<bar> \<le> 2 powi ex / 2"
proof -
  from round_double_Some(2) [OF assms]
  have m: "m = round_half_even (p * 2 ^ nat (- ex)) (q * 2 ^ nat ex)" .
  have "0 < q * 2 ^ nat ex" using assms(2) by simp
  from round_half_even_error [OF this, of "p * 2 ^ nat (- ex)"] m
  have "\<bar>real m - real p / real q * 2 powi (- ex)\<bar> \<le> 1 / 2"
    by (simp only: scaled_ratio [OF assms(2)])
  then have a: "\<bar>real m - real p / real q * 2 powi (- ex)\<bar> * 2 powi ex \<le> 1 / 2 * 2 powi ex"
    by (intro mult_right_mono) simp_all
  have "\<bar>fval m ex - real p / real q\<bar> = \<bar>(real m - real p / real q * 2 powi (- ex)) * 2 powi ex\<bar>"
    by (simp only: fval_def scale_back)
  also have "\<dots> = \<bar>real m - real p / real q * 2 powi (- ex)\<bar> * 2 powi ex"
    by (simp add: abs_mult)
  also note a
  finally show ?thesis by simp
qed

lemma round_double_mantissa:
  assumes "0 < p" and "0 < q" and "round_double p q = Some (m, ex)"
  shows "m \<le> 2 ^ 53"
proof -
  let ?r = "ilog2 p q"
  from round_double_Some(1,2) [OF assms]
  have ex: "ex = max (?r - 52) (- 1074)"
    and m: "m = round_half_even (p * 2 ^ nat (- ex)) (q * 2 ^ nat ex)" by auto
  have q: "0 < real q" using assms(2) by simp
  from ilog2_upper [OF assms(1,2)] have "real p / real q < 2 powi (?r + 1)"
    using q by (simp add: field_simps)
  then have "real p / real q * 2 powi (- ex) < 2 powi (?r + 1) * 2 powi (- ex)"
    by (intro mult_strict_right_mono) simp_all
  also have "\<dots> = 2 powi (?r + 1 - ex)" by (simp flip: two_powi_add)
  also have "\<dots> \<le> 2 powi 53" using ex by (intro power_int_increasing) auto
  finally have b: "real p / real q * 2 powi (- ex) < 2 ^ 53" by simp
  have "0 < q * 2 ^ nat ex" using assms(2) by simp
  from round_half_even_error [OF this, of "p * 2 ^ nat (- ex)"] m
  have "\<bar>real m - real p / real q * 2 powi (- ex)\<bar> \<le> 1 / 2"
    by (simp only: scaled_ratio [OF assms(2)])
  with b have "real m < 2 ^ 53 + 1" by linarith
  then have "real m < real (2 ^ 53 + 1)" by simp
  then have "m < 2 ^ 53 + 1" by (simp only: of_nat_less_iff)
  then show ?thesis by simp
qed

lemma round_double_bound:
  assumes "0 < q" and "round_double p q = Some (m, ex)"
  shows "fval m ex < 2 powi 1024"
proof (cases "p = 0")
  case True
  with assms show ?thesis by (simp add: round_double_def fval_def)
next
  case False
  then have p: "0 < p" by simp
  from round_double_Some(3,4) [OF p assms] have e: "ex \<le> 971" and e1: "ex = 971 \<longrightarrow> m < 2 ^ 53"
    by auto
  show ?thesis
  proof (cases "ex = 971")
    case True
    with e1 have "real m < real (2 ^ 53)" by (simp only: of_nat_less_iff)
    then have "real m < 2 powi 53" by simp
    then have "real m * 2 powi 971 < 2 powi 53 * 2 powi 971"
      by (intro mult_strict_right_mono) simp_all
    also have "\<dots> = 2 powi 1024" by (simp flip: two_powi_add)
    finally show ?thesis using True by (simp add: fval_def)
  next
    case F: False
    with e have e': "ex \<le> 970" by simp
    from round_double_mantissa [OF p assms] have "real m \<le> real (2 ^ 53)"
      by (simp only: of_nat_le_iff)
    then have "real m \<le> 2 powi 53" by simp
    then have "real m * 2 powi ex \<le> 2 powi 53 * 2 powi ex"
      by (intro mult_right_mono) simp_all
    also have "\<dots> = 2 powi (53 + ex)" by (simp only: two_powi_add)
    also have "\<dots> \<le> 2 powi 1023" using e' by (intro power_int_increasing) auto
    also have "\<dots> < 2 powi 1024" by (intro power_int_strict_increasing) auto
    finally show ?thesis by (simp add: fval_def)
  qed
qed

lemma round_double_no_overflow:
  assumes "0 < q" and "real p / real q < 2 powi 1023"
  shows "\<exists>m ex. round_double p q = Some (m, ex)"
proof (cases "p = 0")
  case True
  then show ?thesis by (simp add: round_double_def)
next
  case False
  then have p: "0 < p" by simp
  let ?r = "ilog2 p q"
  have q: "0 < real q" using assms(1) by simp
  from ilog2_lower [OF p assms(1)] have "2 powi ?r \<le> real p / real q"
    using q by (simp add: field_simps)
  with assms(2) have "(2::real) powi ?r < 2 powi 1023" by linarith
  then have "?r < 1023" by (rule power_int_le_imp_less_exp [rotated]) simp_all
  then have "max (?r - 52) (- 1074) < 971" by simp
  then show ?thesis using False by (auto simp: round_double_def Let_def max_def)
qed


lemma round_double_relative:
  assumes "0 < q" and "round_double p q = Some (m, ex)"
  shows "\<bar>fval m ex - real p / real q\<bar> \<le> max (real p / real q * 2 powi (- 53)) (2 powi (- 1075))"
proof (cases "p = 0")
  case True
  with assms have "fval m ex - real p / real q = 0" by (simp add: round_double_def fval_def)
  moreover have "(0::real) \<le> 2 powi (- 1075)" by (rule less_imp_le) (rule two_powi_pos)
  ultimately have "\<bar>fval m ex - real p / real q\<bar> \<le> 2 powi (- 1075)" by (simp only: abs_zero)
  then show ?thesis by (rule max.coboundedI2)
next
  case False
  then have p: "0 < p" by simp
  let ?r = "ilog2 p q"
  let ?x = "real p / real q"
  have half: "(2::real) powi (- 1) = 1 / 2" by simp
  from round_double_error [OF p assms] have err: "\<bar>fval m ex - ?x\<bar> \<le> 2 powi ex * 2 powi (- 1)"
    by (simp only: half)
  from round_double_Some(1) [OF p assms] have ex: "ex = max (?r - 52) (- 1074)" .
  from ilog2_lower [OF p assms(1)] assms(1) have lo: "2 powi ?r \<le> ?x"
    by (simp add: pos_le_divide_eq mult.commute)
  show ?thesis
  proof (cases "?r - 52 \<le> - 1074")
    case True
    with ex have "ex + (- 1) = - 1075" by simp
    with err have "\<bar>fval m ex - ?x\<bar> \<le> 2 powi (- 1075)" by (simp only: two_powi_add [symmetric])
    then show ?thesis by (rule max.coboundedI2)
  next
    case False
    with ex have "ex + (- 1) = ?r + (- 53)" by simp
    with err have "\<bar>fval m ex - ?x\<bar> \<le> 2 powi (?r + (- 53))" by (simp only: two_powi_add [symmetric])
    also have "\<dots> = 2 powi ?r * 2 powi (- 53)" by (rule two_powi_add)
    also have "\<dots> \<le> ?x * 2 powi (- 53)"
      using lo by (rule mult_right_mono) (rule less_imp_le, rule two_powi_pos)
    finally show ?thesis by (rule max.coboundedI1)
  qed
qed

lemma mk_float_Finite:
  assumes "mk_float s p q = Finite s' m e"
  shows "s' = s" and "round_double p q = Some (m, e)"
  using assms by (auto simp: mk_float_def split: option.splits)

lemma float_truediv_ratio:
  assumes "0 < d"
  shows "\<exists>p q. 0 < q \<and> float_truediv (Finite s m e) d = mk_float s p q
           \<and> real p / real q = fval m e / real d"
proof (cases "0 \<le> e")
  case True
  then have "(2::real) powi e = 2 ^ nat e" by (simp add: power_int_def)
  then have "real (m * 2 ^ nat e) / real d = fval m e / real d" by (simp add: fval_def)
  moreover from True have "float_truediv (Finite s m e) d = mk_float s (m * 2 ^ nat e) d"
    by (simp add: float_truediv_def)
  ultimately show ?thesis using assms by blast
next
  case False
  then have h: "(2::real) powi e = inverse (2 ^ nat (- e))"
    by (simp add: power_int_def power_one_over inverse_eq_divide)
  have "real m / real (d * 2 ^ nat (- e)) = fval m e / real d"
    unfolding fval_def h by (simp add: divide_inverse)
  moreover from False have "float_truediv (Finite s m e) d = mk_float s m (d * 2 ^ nat (- e))"
    by (simp add: float_truediv_def)
  moreover have "0 < d * 2 ^ nat (- e)" using assms by simp
  ultimately show ?thesis by blast
qed

lemma float_truediv_finite:
  assumes "fval m e < 2 powi 1024"
  shows "\<exists>m' e'. float_truediv (Finite s m e) 1000 = Finite s m' e'
           \<and> \<bar>fval m' e' - fval m e / 1000\<bar>
                 \<le> max (fval m e / 1000 * 2 powi (- 53)) (2 powi (- 1075))
           \<and> fval m' e' < 2 powi 1024"
proof -
  from float_truediv_ratio [of 1000 s m e] obtain p q where
    q: "0 < q" and f: "float_truediv (Finite s m e) 1000 = mk_float s p q"
    and r: "real p / real q = fval m e / 1000"
    by auto
  have "0 \<le> fval m e" by (simp add: fval_def)
  with assms have "fval m e / 1000 < 2 powi 1023" by simp
  then have "real p / real q < 2 powi 1023" by (simp only: r)
  from round_double_no_overflow [OF q this] obtain m' e' where
    s: "round_double p q = Some (m', e')" by blast
  with f have F: "float_truediv (Finite s m e) 1000 = Finite s m' e'" by (simp add: mk_float_def)
  from round_double_relative [OF q s]
  have "\<bar>fval m' e' - fval m e / 1000\<bar> \<le> max (fval m e / 1000 * 2 powi (- 53)) (2 powi (- 1075))"
    by (simp only: r)
  with F round_double_bound [OF q s] show ?thesis by blast
qed

lemma py_float_finite_bound:
  assumes "py_float v = Inr (Finite s m e)"
  shows "fval m e < 2 powi 1024"
proof -
  from assms obtain s' mant sc where "of_decimal s' mant sc = Finite s m e"
    by (auto simp: py_float_def split: option.splits prod.splits if_splits)
  then have "\<exists>p q. 0 < q \<and> mk_float s' p q = Finite s m e"
  proof (cases "0 \<le> sc")
    case True
    assume "of_decimal s' mant sc = Finite s m e"
    with True have "(0::nat) < 1 \<and> mk_float s' (mant * 10 ^ nat sc) 1 = Finite s m e"
      by (simp add: of_decimal_def)
    then show ?thesis by blast
  next
    case False
    assume "of_decimal s' mant sc = Finite s m e"
    with False have "(0::nat) < 10 ^ nat (- sc) \<and> mk_float s' mant (10 ^ nat (- sc)) = Finite s m e"
      by (simp add: of_decimal_def)
    then show ?thesis by blast
  qed
  then obtain p q where q: "0 < q" and f: "mk_float s' p q = Finite s m e" by blast
  from round_double_bound [OF q mk_float_Finite(2) [OF f]] show ?thesis .
qed

lemma py_float_not_NA: "py_float v = Inr x \<Longrightarrow> v \<noteq> ''N/A''"
  using py_float_NA by auto

subsection \<open>The shape of a formatted number\<close>

lemma dec_digits: "list_all digit_cp (dec n)"
proof (induction n rule: dec.induct)
  case (1 n)
  show ?case
  proof (cases "n < 10")
    case True
    then show ?thesis by (subst dec.simps) (simp add: digit_cp_def)
  next
    case False
    have "n mod 10 < 10" by simp
    then have "digit_cp (48 + n mod 10)" unfolding digit_cp_def by arith
    with False 1 show ?thesis by (subst dec.simps) simp
  qed
qed

lemma dec_not_Nil: "dec n \<noteq> []"
  by (subst dec.simps) simp

lemma dec_length_3: "n < 1000 \<Longrightarrow> length (dec n) \<le> 3"
  by (simp add: dec.simps [of n] dec.simps [of "n div 10"] dec.simps [of "n div 10 div 10"])

lemma zpad_length: "length (zpad w s) = max w (length s)"
proof (induction w s rule: zpad.induct)
  case (1 w s)
  show ?case
  proof (cases "length s < w")
    case True
    with 1 show ?thesis by (subst zpad.simps) auto
  next
    case False
    then show ?thesis by (subst zpad.simps) auto
  qed
qed

lemma zpad_digits: "list_all digit_cp s \<Longrightarrow> list_all digit_cp (zpad w s)"
proof (induction w s rule: zpad.induct)
  case (1 w s)
  show ?case
  proof (cases "length s < w")
    case True
    have "digit_cp 48" by (simp add: digit_cp_def)
    with True 1 show ?thesis by (subst zpad.simps) simp
  next
    case False
    with 1 show ?thesis by (subst zpad.simps) simp
  qed
qed

lemma fixed3_three_decimals: "three_decimals (fixed3 s r)"
proof -
  let ?sign = "if s then [45] else []"
  let ?ip = "dec (r div 1000)" and ?fp = "zpad 3 (dec (r mod 1000))"
  have "r mod 1000 < 1000" by simp
  from dec_length_3 [OF this] have "length ?fp = 3" by (simp add: zpad_length max_def)
  moreover have "list_all digit_cp ?fp" by (simp add: zpad_digits dec_digits)
  moreover have "?ip \<noteq> []" "list_all digit_cp ?ip" by (simp_all add: dec_not_Nil dec_digits)
  moreover have "fixed3 s r = ?sign @ ?ip @ [46] @ ?fp" by (simp add: fixed3_def)
  moreover have "?sign = [] \<or> ?sign = [45]" by simp
  ultimately show ?thesis unfolding three_decimals_def by blast
qed

lemma format_3f_three_decimals: "three_decimals (format_3f (Finite s m e))"
  by (simp add: format_3f_def fixed3_three_decimals)


subsection \<open>A whole number of milliseconds is shown exactly\<close>

lemma format_3f_nearest:
  assumes "\<bar>fval m e * 1000 - real n\<bar> < 1 / 2"
  shows "format_3f (Finite s m e) = fixed3 s n"
proof (cases "0 \<le> e")
  case True
  then have "(2::real) powi e = 2 ^ nat e" by (simp add: power_int_def)
  then have "real (m * 1000 * 2 ^ nat e) = fval m e * 1000" by (simp add: fval_def)
  with assms have "\<bar>real (m * 1000 * 2 ^ nat e) - real n\<bar> < 1 / 2" by (simp only:)
  then have "\<bar>real (m * 1000 * 2 ^ nat e) - real n\<bar> < 1" by linarith
  then have "m * 1000 * 2 ^ nat e = n" by linarith
  with True show ?thesis by (simp add: format_3f_def)
next
  case False
  then have h: "(2::real) powi e = inverse (2 ^ nat (- e))"
    by (simp add: power_int_def power_one_over inverse_eq_divide)
  have "real (m * 1000) / real (2 ^ nat (- e)) = fval m e * 1000"
    unfolding fval_def h by (simp add: divide_inverse)
  with assms have "\<bar>real (m * 1000) / real (2 ^ nat (- e)) - real n\<bar> < 1 / 2" by (simp only:)
  moreover have "(0::nat) < 2 ^ nat (- e)" by simp
  ultimately have "round_half_even (m * 1000) (2 ^ nat (- e)) = n"
    by (intro round_half_even_nearest)
  with False show ?thesis by (simp add: format_3f_def)
qed

lemma round_half_even_one: "round_half_even n (Suc 0) = n"
  by (simp add: round_half_even_def)

lemma mk_float_int_exact:
  assumes "n < 2 ^ 53"
  shows "\<exists>m e. mk_float s n 1 = Finite s m e \<and> fval m e = real n"
proof (cases "n = 0")
  case True
  then show ?thesis by (simp add: mk_float_def round_double_def fval_def)
next
  case False
  then have n: "0 < n" by simp
  let ?r = "ilog2 n 1"
  define ex where "ex = max (?r - 52) (- 1074)"
  from assms have "real n < real (2 ^ 53)" by (simp only: of_nat_less_iff)
  then have "real n < 2 powi 53" by simp
  with ilog2_lower [OF n, of 1] have "(2::real) powi ?r < 2 powi 53" by simp
  then have "?r < 53" by (rule power_int_le_imp_less_exp [rotated]) simp_all
  then have e0: "ex \<le> 0" by (simp add: ex_def)
  then have n0: "nat ex = 0" by simp
  have r: "round_double n 1 = Some (n * 2 ^ nat (- ex), ex)"
    using False e0 unfolding round_double_def Let_def ex_def [symmetric]
    by (simp add: n0 round_half_even_one)
  have "(2::real) powi ex = inverse (2 ^ nat (- ex))"
    using e0 by (cases "ex = 0") (simp_all add: power_int_def power_one_over inverse_eq_divide)
  then have "fval (n * 2 ^ nat (- ex)) ex = real n" by (simp add: fval_def)
  with r show ?thesis by (simp add: mk_float_def)
qed

lemma two_powi_small: "e \<le> - 10 \<Longrightarrow> (2::real) powi e < 1 / 1000"
proof -
  assume "e \<le> - 10"
  then have "(2::real) powi e \<le> 2 powi (- 10)" by (intro power_int_increasing) auto
  also have "\<dots> < 1 / 1000" by (simp add: power_int_def power_one_over)
  finally show ?thesis .
qed

lemma truediv_int_exact:
  assumes "n < 2 ^ 52" and "fval m e = real n"
  shows "\<exists>m' e'. float_truediv (Finite s m e) 1000 = Finite s m' e'
           \<and> \<bar>fval m' e' * 1000 - real n\<bar> < 1 / 2"
proof -
  from float_truediv_ratio [of 1000 s m e] assms(2) obtain p q where
    q: "0 < q" and f: "float_truediv (Finite s m e) 1000 = mk_float s p q"
    and r: "real p / real q = real n / 1000"
    by auto
  from assms(1) have "real n < real (2 ^ 52)" by (simp only: of_nat_less_iff)
  then have nb: "real n < 2 ^ 52" by simp
  then have "real n / 1000 < 2 powi 1023" by simp
  then have "real p / real q < 2 powi 1023" by (simp only: r)
  from round_double_no_overflow [OF q this] obtain m' e' where
    s: "round_double p q = Some (m', e')" by blast
  with f have F: "float_truediv (Finite s m e) 1000 = Finite s m' e'" by (simp add: mk_float_def)
  have "\<bar>fval m' e' * 1000 - real n\<bar> < 1 / 2"
  proof (cases "p = 0")
    case True
    with s have "m' = 0" by (simp add: round_double_def)
    moreover from True r have "real n = 0" by simp
    ultimately show ?thesis by (simp add: fval_def)
  next
    case False
    then have p: "0 < p" by simp
    let ?r = "ilog2 p q"
    have q': "0 < real q" using q by simp
    from ilog2_lower [OF p q] have "2 powi ?r \<le> real p / real q"
      using q' by (simp add: pos_le_divide_eq mult.commute)
    then have lo: "2 powi ?r \<le> real n / 1000" by (simp only: r)
    from round_double_Some(1) [OF p q s] have e': "e' = max (?r - 52) (- 1074)" .
    have small: "(2::real) powi e' < 1 / 1000"
    proof (cases "?r - 52 \<le> - 1074")
      case True
      with e' have "e' \<le> - 10" by simp
      then show ?thesis by (rule two_powi_small)
    next
      case False
      with e' have "e' = ?r + (- 52)" by simp
      then have "(2::real) powi e' = 2 powi ?r * 2 powi (- 52)" by (simp only: two_powi_add)
      also have "\<dots> \<le> real n / 1000 * 2 powi (- 52)" using lo by (intro mult_right_mono) simp_all
      also have "\<dots> < 2 ^ 52 / 1000 * 2 powi (- 52)" using nb by (intro mult_strict_right_mono) simp_all
      also have "\<dots> = 1 / 1000" by (simp add: power_int_def power_one_over)
      finally show ?thesis .
    qed
    from round_double_error [OF p q s] r
    have "\<bar>fval m' e' - real n / 1000\<bar> \<le> 2 powi e' / 2" by simp
    with small show ?thesis by (simp add: abs_if split: if_splits) 
  qed
  with F show ?thesis by blast
qed

lemma int_ms_display:
  assumes "n < 2 ^ 52"
  shows "format_3f (float_truediv (mk_float s n 1) 1000) = fixed3 s n"
proof -
  from assms have "n < 2 ^ 53" by simp
  from mk_float_int_exact [OF this, of s] obtain m e where
    a: "mk_float s n 1 = Finite s m e" and b: "fval m e = real n" by blast
  from truediv_int_exact [OF assms b, of s] obtain m' e' where
    c: "float_truediv (Finite s m e) 1000 = Finite s m' e'"
    and d: "\<bar>fval m' e' * 1000 - real n\<bar> < 1 / 2" by blast
  from format_3f_nearest [OF d] a c show ?thesis by simp
qed


subsection \<open>\<^verbatim>\<open>float\<close> of a string of digits\<close>

lemma digit_not_space: "is_digit c \<Longrightarrow> \<not> num_space c"
  by (auto simp: is_digit_def num_space_def Let_def)

lemma digit_not_sign: "is_digit c \<Longrightarrow> c \<noteq> CHR ''_'' \<and> c \<noteq> CHR ''-'' \<and> c \<noteq> CHR ''+''"
  by (auto simp: is_digit_def py_ord_def)

lemma num_strip_digits:
  assumes "ds \<noteq> []" and "list_all is_digit ds"
  shows "num_strip ds = ds"
proof -
  from assms have "is_digit (hd ds)" and "is_digit (last ds)"
    by (auto simp: list_all_iff)
  then have h: "\<not> num_space (hd ds)" and l: "\<not> num_space (hd (rev ds))"
    using assms(1) by (auto dest: digit_not_space simp: hd_rev)
  from h assms(1) have "dropWhile num_space ds = ds" by (cases ds) auto
  moreover from l assms(1) have "dropWhile num_space (rev ds) = rev ds"
    by (cases "rev ds") auto
  ultimately show ?thesis by (simp add: num_strip_def)
qed

lemma drop_underscores_digits:
  "list_all is_digit ds \<Longrightarrow> prev \<noteq> CHR ''_'' \<Longrightarrow> drop_underscores prev ds = Some ds"
  by (induction ds arbitrary: prev) (auto dest: digit_not_sign)

lemma split_sign_digits:
  "ds \<noteq> [] \<Longrightarrow> list_all is_digit ds \<Longrightarrow> split_sign ds = (False, ds)"
  by (cases ds) (auto simp: split_sign_def dest: digit_not_sign)

lemma digits_not_a_word:
  assumes "ds \<noteq> []" and "list_all is_digit ds"
  shows "py_lower (lit ds) \<noteq> lit ''inf'' \<and> py_lower (lit ds) \<noteq> lit ''infinity''
           \<and> py_lower (lit ds) \<noteq> lit ''nan''"
proof -
  from assms obtain c cs where ds: "ds = c # cs" and c: "is_digit c" by (cases ds) auto
  from c have "lower_cp (py_ord c) = [py_ord c]" by (auto simp: is_digit_def lower_cp_def)
  then have "hd (py_lower (lit ds)) = py_ord c" by (simp add: ds py_lower_def lit_def)
  moreover from c have "py_ord c \<noteq> 105 \<and> py_ord c \<noteq> 110" by (auto simp: is_digit_def)
  moreover have "hd (lit ''inf'') = 105" "hd (lit ''infinity'') = 105" "hd (lit ''nan'') = 110"
    by (simp_all add: lit_def py_ord_def)
  ultimately show ?thesis by metis
qed

lemma parse_decimal_digits:
  assumes "ds \<noteq> []" and "list_all is_digit ds"
  shows "parse_decimal ds = Some (digits_val ds, 0)"
proof -
  from assms(2) have tw: "takeWhile is_digit ds = ds" and dw: "dropWhile is_digit ds = []"
    by (simp_all add: list_all_iff)
  from assms(1) show ?thesis by (simp add: parse_decimal_def parse_exponent_def Let_def tw dw)
qed

lemma py_float_digits:
  assumes "ds \<noteq> []" and "list_all is_digit ds"
  shows "py_float ds = Inr (mk_float False (digits_val ds) 1)"
  using digits_not_a_word [OF assms]
  by (simp add: py_float_def num_strip_digits [OF assms] drop_underscores_digits [OF assms(2)]
      split_sign_digits [OF assms] parse_decimal_digits [OF assms] of_decimal_def)

lemma digits_ms_display:
  assumes "ds \<noteq> []" and "list_all is_digit ds" and "digits_val ds < 2 ^ 52"
    and "py_float ds = Inr x"
  shows "format_3f (float_truediv x 1000)
           = dec (digits_val ds div 1000) @ [46] @ zpad 3 (dec (digits_val ds mod 1000))"
proof -
  from py_float_digits [OF assms(1,2)] assms(4) have "x = mk_float False (digits_val ds) 1" by simp
  with int_ms_display [OF assms(3), of False] show ?thesis by (simp add: fixed3_def)
qed

lemma float_2500: "py_float ''2500'' = Inr (Finite False 5497558138880000 (- 41))"
  by (simp add: eval_float py_lower_def lower_cp_def lit_def py_ord_def)

lemma truediv_2500:
  "float_truediv (Finite False 5497558138880000 (- 41)) 1000 = Finite False 5629499534213120 (- 51)"
  by (simp add: eval_float)

lemma format_2500: "format_3f (Finite False 5629499534213120 (- 51)) = lit ''2.500''"
  by (simp add: eval_format round_half_even_def lit_def py_ord_def)


lemma format_3f_value:
  "\<exists>r. format_3f (Finite s m e) = fixed3 s r \<and> \<bar>real r - fval m e * 1000\<bar> \<le> 1 / 2"
proof (cases "0 \<le> e")
  case True
  then have "(2::real) powi e = 2 ^ nat e" by (simp add: power_int_def)
  then have "real (m * 1000 * 2 ^ nat e) = fval m e * 1000" by (simp add: fval_def)
  then have "\<bar>real (m * 1000 * 2 ^ nat e) - fval m e * 1000\<bar> \<le> 1 / 2" by simp
  moreover from True have "format_3f (Finite s m e) = fixed3 s (m * 1000 * 2 ^ nat e)"
    by (simp add: format_3f_def)
  ultimately show ?thesis by blast
next
  case False
  then have h: "(2::real) powi e = inverse (2 ^ nat (- e))"
    by (simp add: power_int_def power_one_over inverse_eq_divide)
  have v: "real (m * 1000) / real (2 ^ nat (- e)) = fval m e * 1000"
    unfolding fval_def h by (simp add: divide_inverse)
  have "(0::nat) < 2 ^ nat (- e)" by simp
  from round_half_even_error [OF this, of "m * 1000"]
  have "\<bar>real (round_half_even (m * 1000) (2 ^ nat (- e))) - fval m e * 1000\<bar> \<le> 1 / 2"
    by (simp only: v)
  moreover from False
  have "format_3f (Finite s m e) = fixed3 s (round_half_even (m * 1000) (2 ^ nat (- e)))"
    by (simp add: format_3f_def)
  ultimately show ?thesis by blast
qed


subsection \<open>A decimal number beyond the doubles\<close>

lemma round_double_overflow:
  assumes "0 < q" and "q * 2 ^ 1024 \<le> p"
  shows "round_double p q = None"
proof -
  from assms have p: "0 < p" by (cases "p = 0") auto
  let ?r = "ilog2 p q"
  from assms(2) have "real (q * 2 ^ 1024) \<le> real p" by (simp only: of_nat_le_iff)
  then have "real q * 2 powi 1024 \<le> real p" by simp
  also note ilog2_upper [OF p assms(1)]
  finally have lt: "(2::real) powi 1024 < 2 powi (?r + 1)" using assms(1) by simp
  have "1024 < ?r + 1"
  proof (rule ccontr)
    assume "\<not> 1024 < ?r + 1"
    then have "?r + 1 \<le> 1024" by simp
    then have "(2::real) powi (?r + 1) \<le> 2 powi 1024" by (intro power_int_increasing) auto
    with lt show False by linarith
  qed
  then have "971 < max (?r - 52) (- 1074)" by simp
  then show ?thesis unfolding round_double_def Let_def using p by (simp only: if_True) simp
qed

lemma parse_1e400: "parse_decimal ''1e400'' = Some (1, 400)"
  by (simp add: parse_decimal_def parse_exponent_def is_digit_def split_sign_def digits_val_def
      py_ord_def Let_def)

lemma of_decimal_1e400: "of_decimal False 1 400 = Infinity False"
proof -
  have "(0::nat) < 1" and "(1::nat) * 2 ^ 1024 \<le> 1 * 10 ^ nat 400" by simp_all
  then have "round_double (1 * 10 ^ nat 400) 1 = None" by (rule round_double_overflow)
  then have "mk_float False (1 * 10 ^ nat 400) 1 = Infinity False" by (simp only: mk_float_def option.case)
  moreover have "of_decimal False 1 400 = mk_float False (1 * 10 ^ nat 400) 1"
    by (simp only: of_decimal_def) simp
  ultimately show ?thesis by (simp only:)
qed

lemma float_1e400: "py_float ''1e400'' = Inr (Infinity False)"
  by (simp add: py_float_def num_strip_def num_space_def split_sign_def is_digit_def
      py_lower_def lower_cp_def lit_def py_ord_def parse_1e400 of_decimal_1e400 [unfolded One_nat_def])


subsection \<open>The uptime in the log and in the response\<close>

text \<open>
  Claim C4 says that every uptime header that is present and parseable as a number is
  shown in seconds with three decimal places.  The value \<^verbatim>\<open>1e400\<close> is a decimal number
  that \<^verbatim>\<open>float\<close> accepts; it is beyond the doubles and becomes infinity, which stays
  infinity when divided by 1000 and is formatted as \<^verbatim>\<open>inf\<close>, without decimal places.
  The request is answered with 200 and \<^verbatim>\<open>ESP32 uptime: inf seconds\<close>.
\<close>

theorem overflowing_uptime_counterexample:
  "py_float ''1e400'' = Inr (Infinity False)
   \<and> uptime_seconds (esp32_uptime (post_request [(''X-ESP32-Uptime-MS'', ''1e400'')] []))
       = Inr (PyFloat (Infinity False))
   \<and> map_sum id (status \<circ> snd)
        (snd (do_POST initial_state (post_request [(''X-ESP32-Uptime-MS'', ''1e400'')] [])))
       = Inr 200
   \<and> map_sum id (body \<circ> snd)
        (snd (do_POST initial_state (post_request [(''X-ESP32-Uptime-MS'', ''1e400'')] [])))
       = utf8_encode
           ([9989] @ lit '' Message #N/A received successfully by your computer!''
            @ [10, 128202] @ lit '' Server has now received 1 total messages.''
            @ [10, 9200] @ lit '' Received at: 2024-01-02 03:04:05.006''
            @ [10, 127919] @ lit '' ESP32 uptime: inf seconds'')"
proof -
  let ?rq = "post_request [(''X-ESP32-Uptime-MS'', ''1e400'')] []"
  have h: "esp32_uptime ?rq = ''1e400''"
    by (simp add: esp32_uptime_def post_request_def eval_header)
  have c: "esp32_counter ?rq = ''N/A''"
    by (simp add: esp32_counter_def post_request_def eval_header)
  have r: "read_post_data ?rq = Inr []"
    by (rule read_no_length) (simp add: post_request_def eval_header)
  from h have u: "uptime_seconds (esp32_uptime ?rq) = Inr (PyFloat (Infinity False))"
    by (simp add: uptime_seconds_def float_1e400 float_truediv_def)
  have m: "response_message ''N/A'' 1 (lit ''2024-01-02 03:04:05.006'') (PyFloat (Infinity False))
      = [9989] @ lit '' Message #N/A received successfully by your computer!''
            @ [10, 128202] @ lit '' Server has now received 1 total messages.''
            @ [10, 9200] @ lit '' Received at: 2024-01-02 03:04:05.006''
            @ [10, 127919] @ lit '' ESP32 uptime: inf seconds''"
    by (simp add: response_message_def format_num_3f_def format_3f_def str_int_def dec.simps
        lit_def py_ord_def)
  from do_POST_ok [OF r u, of initial_state] obtain b where
    e: "utf8_encode (response_message (esp32_counter ?rq) (message_count initial_state + 1)
          (post_timestamp ?rq) (PyFloat (Infinity False))) = Inr b"
    and d: "snd (do_POST initial_state ?rq) =
        Inr (post_log (message_count initial_state + 1) (esp32_counter ?rq)
               (PyFloat (Infinity False)) (post_timestamp ?rq) ?rq [],
             \<lparr>status = 200, sent_headers = [(''Content-type'', ''text/plain'')], body = b\<rparr>)"
    by auto
  from e have e': "utf8_encode (response_message ''N/A'' 1 (lit ''2024-01-02 03:04:05.006'')
      (PyFloat (Infinity False))) = Inr b"
    by (simp add: c sample_timestamp initial_state_def)
  from d have "map_sum id (status \<circ> snd) (snd (do_POST initial_state ?rq)) = Inr 200"
    and "map_sum id (body \<circ> snd) (snd (do_POST initial_state ?rq)) = Inr b"
    by simp_all
  with e' m u show ?thesis by (simp only: float_1e400)
qed

text \<open>
  Claim C4, as amended.  When the \<^verbatim>\<open>X-ESP32-Uptime-MS\<close> header is present and
  \<^verbatim>\<open>float\<close> reads it as a finite number (and the body is read and decoded), the uptime
  is that number divided by 1000: a finite double that differs from the exact quotient by
  at most the relative error \<open>2 powi (- 53)\<close> of one rounding (or \<open>2 powi (- 1075)\<close> for the
  smallest quotients).  The log line and the acknowledgment, sent with status 200, show
  it with three decimal places: the thousandths nearest to the double.  A header of digits
  only, for a number of milliseconds below \<open>2 ^ 52\<close>, is shown exactly: the whole seconds, a
  point, and the remaining milliseconds on three digits.  The header \<^verbatim>\<open>2500\<close> gives
  \<^verbatim>\<open>2.500\<close>.
\<close>

theorem uptime_shown_in_seconds:
  assumes "hget (headers rq) ''X-ESP32-Uptime-MS'' = Some v"
    and "py_float v = Inr (Finite s m e)"
    and "read_post_data rq = Inr pd"
  shows "\<exists>m' e'.
      float_truediv (Finite s m e) 1000 = Finite s m' e'
      \<and> \<bar>fval m' e' - fval m e / 1000\<bar> \<le> max (fval m e / 1000 * 2 powi (- 53)) (2 powi (- 1075))
      \<and> uptime_seconds (esp32_uptime rq) = Inr (PyFloat (Finite s m' e'))
      \<and> three_decimals (format_3f (Finite s m' e'))
      \<and> (\<exists>r. format_3f (Finite s m' e') = fixed3 s r \<and> \<bar>real r - fval m' e' * 1000\<bar> \<le> 1 / 2)
      \<and> (\<exists>printed resp.
            do_POST st rq = (st\<lparr>message_count := message_count st + 1\<rparr>, Inr (printed, resp))
            \<and> status resp = 200
            \<and> printed ! 6 = lit ''   '' @ [9201, 65039] @ lit ''  ESP32 Uptime: ''
                              @ format_3f (Finite s m' e') @ lit '' seconds''
            \<and> utf8_encode
                 ([9989] @ lit '' Message #'' @ lit (esp32_counter rq)
                  @ lit '' received successfully by your computer!''
                  @ [10, 128202] @ lit '' Server has now received '' @ str_int (message_count st + 1)
                  @ lit '' total messages.''
                  @ [10, 9200] @ lit '' Received at: '' @ post_timestamp rq
                  @ [10, 127919] @ lit '' ESP32 uptime: '' @ format_3f (Finite s m' e')
                  @ lit '' seconds'') = Inr (body resp))
      \<and> (v \<noteq> [] \<and> list_all is_digit v \<and> digits_val v < 2 ^ 52 \<longrightarrow>
            format_3f (Finite s m' e')
              = dec (digits_val v div 1000) @ [46] @ zpad 3 (dec (digits_val v mod 1000)))
      \<and> (v = ''2500'' \<longrightarrow> format_3f (Finite s m' e') = lit ''2.500'')"
proof -
  from float_truediv_finite [OF py_float_finite_bound [OF assms(2)], of s] obtain m' e' where
    f: "float_truediv (Finite s m e) 1000 = Finite s m' e'"
    and b: "\<bar>fval m' e' - fval m e / 1000\<bar> \<le> max (fval m e / 1000 * 2 powi (- 53)) (2 powi (- 1075))"
    by blast
  let ?x = "Finite s m' e'"
  from assms(1) have up: "esp32_uptime rq = v" by (simp add: esp32_uptime_def)
  from py_float_not_NA [OF assms(2)] assms(2) f
  have u: "uptime_seconds (esp32_uptime rq) = Inr (PyFloat ?x)"
    by (simp add: up uptime_seconds_def)
  have t: "three_decimals (format_3f ?x)" by (rule format_3f_three_decimals)
  have r: "\<exists>r. format_3f ?x = fixed3 s r \<and> \<bar>real r - fval m' e' * 1000\<bar> \<le> 1 / 2"
    by (rule format_3f_value)
  from do_POST_ok [OF assms(3) u, of st] obtain bs where
    en: "utf8_encode (response_message (esp32_counter rq) (message_count st + 1)
          (post_timestamp rq) (PyFloat ?x)) = Inr bs"
    and d: "do_POST st rq =
       (st\<lparr>message_count := message_count st + 1\<rparr>,
        Inr (post_log (message_count st + 1) (esp32_counter rq) (PyFloat ?x) (post_timestamp rq) rq pd,
             \<lparr>status = 200, sent_headers = [(''Content-type'', ''text/plain'')], body = bs\<rparr>))"
    by blast
  have l: "post_log (message_count st + 1) (esp32_counter rq) (PyFloat ?x) (post_timestamp rq) rq pd ! 6
      = lit ''   '' @ [9201, 65039] @ lit ''  ESP32 Uptime: '' @ format_3f ?x @ lit '' seconds''"
    by (simp only: post_log_uptime_line) (simp add: format_num_3f_def)
  have msg: "response_message (esp32_counter rq) (message_count st + 1) (post_timestamp rq) (PyFloat ?x)
      = [9989] @ lit '' Message #'' @ lit (esp32_counter rq)
                  @ lit '' received successfully by your computer!''
                  @ [10, 128202] @ lit '' Server has now received '' @ str_int (message_count st + 1)
                  @ lit '' total messages.''
                  @ [10, 9200] @ lit '' Received at: '' @ post_timestamp rq
                  @ [10, 127919] @ lit '' ESP32 uptime: '' @ format_3f ?x @ lit '' seconds''"
    by (simp only: response_message_def) (simp add: format_num_3f_def)
  from d l en msg have p: "\<exists>printed resp.
            do_POST st rq = (st\<lparr>message_count := message_count st + 1\<rparr>, Inr (printed, resp))
            \<and> status resp = 200
            \<and> printed ! 6 = lit ''   '' @ [9201, 65039] @ lit ''  ESP32 Uptime: ''
                              @ format_3f ?x @ lit '' seconds''
            \<and> utf8_encode
                 ([9989] @ lit '' Message #'' @ lit (esp32_counter rq)
                  @ lit '' received successfully by your computer!''
                  @ [10, 128202] @ lit '' Server has now received '' @ str_int (message_count st + 1)
                  @ lit '' total messages.''
                  @ [10, 9200] @ lit '' Received at: '' @ post_timestamp rq
                  @ [10, 127919] @ lit '' ESP32 uptime: '' @ format_3f ?x
                  @ lit '' seconds'') = Inr (body resp)"
    by simp
  have g: "v \<noteq> [] \<and> list_all is_digit v \<and> digits_val v < 2 ^ 52 \<longrightarrow>
            format_3f ?x = dec (digits_val v div 1000) @ [46] @ zpad 3 (dec (digits_val v mod 1000))"
    using digits_ms_display [OF _ _ _ assms(2)] f by simp
  have k: "v = ''2500'' \<longrightarrow> format_3f ?x = lit ''2.500''"
  proof
    assume "v = ''2500''"
    with assms(2) float_2500 have "Finite s m e = Finite False 5497558138880000 (- 41)" by simp
    with f truediv_2500 have "?x = Finite False 5629499534213120 (- 51)" by simp
    then show "format_3f ?x = lit ''2.500''" by (simp only: format_2500)
  qed
  from f b u t r p g k show ?thesis by blast
qed

text \<open>
  The request with \<^verbatim>\<open>X-ESP32-Uptime-MS: 2500\<close> and nothing else: \<^verbatim>\<open>2.500 seconds\<close> in the
  log and in the response.
\<close>

theorem uptime_shown_in_seconds_witness:
  "hget (headers (post_request [(''X-ESP32-Uptime-MS'', ''2500'')] [])) ''X-ESP32-Uptime-MS''
     = Some ''2500''
   \<and> py_float ''2500'' = Inr (Finite False 5497558138880000 (- 41))
   \<and> read_post_data (post_request [(''X-ESP32-Uptime-MS'', ''2500'')] []) = Inr []
   \<and> uptime_seconds (esp32_uptime (post_request [(''X-ESP32-Uptime-MS'', ''2500'')] []))
       = Inr (PyFloat (Finite False 5629499534213120 (- 51)))
   \<and> (\<exists>printed resp.
         do_POST initial_state (post_request [(''X-ESP32-Uptime-MS'', ''2500'')] [])
           = (\<lparr>message_count = 1\<rparr>, Inr (printed, resp))
         \<and> status resp = 200
         \<and> printed ! 6 = lit ''   '' @ [9201, 65039] @ lit ''  ESP32 Uptime: 2.500 seconds''
         \<and> utf8_encode
              ([9989] @ lit '' Message #N/A received successfully by your computer!''
               @ [10, 128202] @ lit '' Server has now received 1 total messages.''
               @ [10, 9200] @ lit '' Received at: 2024-01-02 03:04:05.006''
               @ [10, 127919] @ lit '' ESP32 uptime: 2.500 seconds'') = Inr (body resp))"
proof -
  let ?rq = "post_request [(''X-ESP32-Uptime-MS'', ''2500'')] []"
  have h: "hget (headers ?rq) ''X-ESP32-Uptime-MS'' = Some ''2500''"
    by (simp add: post_request_def eval_header)
  have r: "read_post_data ?rq = Inr []"
    by (rule read_no_length) (simp add: post_request_def eval_header)
  have c: "esp32_counter ?rq = ''N/A''"
    by (simp add: esp32_counter_def post_request_def eval_header)
  from uptime_shown_in_seconds [OF h float_2500 r, of initial_state] obtain m' e' where
    f: "float_truediv (Finite False 5497558138880000 (- 41)) 1000 = Finite False m' e'"
    and u: "uptime_seconds (esp32_uptime ?rq) = Inr (PyFloat (Finite False m' e'))"
    and p: "\<exists>printed resp.
            do_POST initial_state ?rq
              = (initial_state\<lparr>message_count := message_count initial_state + 1\<rparr>, Inr (printed, resp))
            \<and> status resp = 200
            \<and> printed ! 6 = lit ''   '' @ [9201, 65039] @ lit ''  ESP32 Uptime: ''
                              @ format_3f (Finite False m' e') @ lit '' seconds''
            \<and> utf8_encode
                 ([9989] @ lit '' Message #'' @ lit (esp32_counter ?rq)
                  @ lit '' received successfully by your computer!''
                  @ [10, 128202] @ lit '' Server has now received ''
                  @ str_int (message_count initial_state + 1)
                  @ lit '' total messages.''
                  @ [10, 9200] @ lit '' Received at: '' @ post_timestamp ?rq
                  @ [10, 127919] @ lit '' ESP32 uptime: '' @ format_3f (Finite False m' e')
                  @ lit '' seconds'') = Inr (body resp)"
    and k: "format_3f (Finite False m' e') = lit ''2.500''"
    by blast
  from f have x: "Finite False m' e' = Finite False 5629499534213120 (- 51)"
    by (simp only: truediv_2500)
  from u have u': "uptime_seconds (esp32_uptime ?rq) = Inr (PyFloat (Finite False 5629499534213120 (- 51)))"
    by (simp only: x)
  from p have "\<exists>printed resp.
         do_POST initial_state ?rq = (\<lparr>message_count = 1\<rparr>, Inr (printed, resp))
         \<and> status resp = 200
         \<and> printed ! 6 = lit ''   '' @ [9201, 65039] @ lit ''  ESP32 Uptime: 2.500 seconds''
         \<and> utf8_encode
              ([9989] @ lit '' Message #N/A received successfully by your computer!''
               @ [10, 128202] @ lit '' Server has now received 1 total messages.''
               @ [10, 9200] @ lit '' Received at: 2024-01-02 03:04:05.006''
               @ [10, 127919] @ lit '' ESP32 uptime: 2.500 seconds'') = Inr (body resp)"
    by (simp only: k c sample_timestamp)
       (simp add: initial_state_def str_int_def dec.simps lit_def py_ord_def)
  with h float_2500 r u' show ?thesis by blast
qed

end
